theory Spec2Isabelle
  imports Main
begin

section \<open>JavaScript values\<close>

text \<open>
  The converter works on plain JavaScript data: the output of the XML parser (strings,
  numbers and booleans from attribute values, objects, arrays of repeated siblings) and
  the object literals the tree builder assembles. An object is kept as the list of its
  own entries in enumeration order (the order of \<open>Object.keys\<close>), with distinct keys.
  Numbers are the integral ones below \<open>1e21\<close> in absolute value, which \<open>String\<close> prints
  digit by digit; strings are lists of code units below 256.
\<close>

datatype jv =
    JUndef
  | JNull
  | JBool bool
  | JNum int
  | JStr string
  | JArr "jv list"
  | JObj "(string \<times> jv) list"

datatype error = TypeError | RangeError | Inherited

text \<open>
  \<open>TypeError\<close> and \<open>RangeError\<close> are the exceptions the code can raise (a property read
  on \<open>null\<close>, a call of a missing method, a negative repeat count). \<open>Inherited\<close> marks a
  lookup in a handler table that finds a member of \<open>Object.prototype\<close> instead of a
  handler; what the inherited member then does is outside this development.
\<close>

fun truthy :: "jv \<Rightarrow> bool" where
  "truthy JUndef = False"
| "truthy JNull = False"
| "truthy (JBool b) = b"
| "truthy (JNum n) = (n \<noteq> 0)"
| "truthy (JStr s) = (s \<noteq> [])"
| "truthy (JArr xs) = True"
| "truthy (JObj kvs) = True"

text \<open>\<open>typeof v === "object"\<close>: objects, arrays and \<open>null\<close>.\<close>

fun is_object :: "jv \<Rightarrow> bool" where
  "is_object JNull = True"
| "is_object (JArr xs) = True"
| "is_object (JObj kvs) = True"
| "is_object v = False"

definition digit_char :: "nat \<Rightarrow> char" where
  "digit_char d = char_of (48 + d)"

fun show_nat :: "nat \<Rightarrow> string" where
  "show_nat n = (if n < 10 then [digit_char n] else show_nat (n div 10) @ [digit_char (n mod 10)])"

definition show_int :: "int \<Rightarrow> string" where
  "show_int i = (if i < 0 then CHR ''-'' # show_nat (nat (- i)) else show_nat (nat i))"

fun intercalate :: "string \<Rightarrow> string list \<Rightarrow> string" where
  "intercalate sep [] = []"
| "intercalate sep [s] = s"
| "intercalate sep (s # t # ss) = s @ sep @ intercalate sep (t # ss)"

text \<open>\<open>String(v)\<close>, as template literals and \<open>+\<close> on a string apply it.\<close>

fun js_toString :: "jv \<Rightarrow> string" where
  "js_toString JUndef = ''undefined''"
| "js_toString JNull = ''null''"
| "js_toString (JBool b) = (if b then ''true'' else ''false'')"
| "js_toString (JNum n) = show_int n"
| "js_toString (JStr s) = s"
| "js_toString (JArr xs) =
     intercalate '',''
       (map (\<lambda>x. case x of JUndef \<Rightarrow> [] | JNull \<Rightarrow> [] | _ \<Rightarrow> js_toString x) xs)"
| "js_toString (JObj kvs) = ''[object Object]''"

fun indexed :: "nat \<Rightarrow> 'a list \<Rightarrow> (string \<times> 'a) list" where
  "indexed i [] = []"
| "indexed i (x # xs) = (show_nat i, x) # indexed (Suc i) xs"

text \<open>
  The own enumerable entries of a value: what \<open>Object.keys\<close> lists and what the spread
  \<open>{...v}\<close> copies. An array has its indices, a string its characters, every other
  primitive nothing.
\<close>

definition entries :: "jv \<Rightarrow> (string \<times> jv) list" where
  "entries v =
     (case v of
        JObj kvs \<Rightarrow> kvs
      | JArr xs \<Rightarrow> indexed 0 xs
      | JStr s \<Rightarrow> indexed 0 (map (\<lambda>c. JStr [c]) s)
      | _ \<Rightarrow> [])"

text \<open>
  A property read \<open>v[k]\<close> on a value that is neither \<open>null\<close> nor \<open>undefined\<close>, for the
  names the converter reads (element and attribute names such as \<open>type\<close>, \<open>#text\<close> or
  \<open>children\<close>; none of them is an array index or \<open>length\<close>, so only an object can hold one).
\<close>

definition get :: "jv \<Rightarrow> string \<Rightarrow> jv" where
  "get v k =
     (case v of
        JObj kvs \<Rightarrow> (case map_of kvs k of Some x \<Rightarrow> x | None \<Rightarrow> JUndef)
      | _ \<Rightarrow> JUndef)"

text \<open>A property read that raises on \<open>null\<close> and \<open>undefined\<close>.\<close>

definition get_prop :: "jv \<Rightarrow> string \<Rightarrow> error + jv" where
  "get_prop v k = (case v of JNull \<Rightarrow> Inl TypeError | JUndef \<Rightarrow> Inl TypeError | _ \<Rightarrow> Inr (get v k))"

definition obj_set :: "(string \<times> jv) list \<Rightarrow> string \<Rightarrow> jv \<Rightarrow> (string \<times> jv) list" where
  "obj_set kvs k v =
     (if k \<in> fst ` set kvs then map (\<lambda>(k', v'). if k' = k then (k', v) else (k', v')) kvs
      else kvs @ [(k, v)])"

text \<open>
  Code units that \<open>String.prototype.trim\<close> removes, among those below 256: tab, line
  feed, vertical tab, form feed, carriage return, space and no-break space.
\<close>

definition is_space :: "char \<Rightarrow> bool" where
  "is_space c = (of_char c \<in> {9, 10, 11, 12, 13, 32, 160 :: nat})"

definition trim :: "string \<Rightarrow> string" where
  "trim s = rev (dropWhile is_space (rev (dropWhile is_space s)))"

text \<open>
  \<open>String.prototype.toLowerCase\<close>, on the letters \<open>A\<close> to \<open>Z\<close>: the code compares its
  result with \<open>"true"\<close> and with the file extensions \<open>".xml"\<close> and \<open>".html"\<close> only.
\<close>

definition lower_char :: "char \<Rightarrow> char" where
  "lower_char c = (let n = of_char c :: nat in if 65 \<le> n \<and> n \<le> 90 then char_of (n + 32) else c)"

definition toLowerCase :: "string \<Rightarrow> string" where
  "toLowerCase s = map lower_char s"

definition starts_with :: "string \<Rightarrow> string \<Rightarrow> bool" where
  "starts_with s t = (take (length t) s = t)"

fun str_includes :: "string \<Rightarrow> string \<Rightarrow> bool" where
  "str_includes [] t = (t = [])"
| "str_includes (c # s) t = (starts_with (c # s) t \<or> str_includes s t)"

text \<open>\<open>v?.trim() || ""\<close>: a missing value gives the empty string, a string is trimmed, and
  any other value has no \<open>trim\<close> method to call.\<close>

definition trim_or_empty :: "jv \<Rightarrow> error + string" where
  "trim_or_empty v =
     (case v of
        JUndef \<Rightarrow> Inr []
      | JNull \<Rightarrow> Inr []
      | JStr s \<Rightarrow> Inr (trim s)
      | _ \<Rightarrow> Inl TypeError)"

text \<open>The pieces a loop appends to its \<open>content\<close>, up to the first exception.\<close>

fun collect :: "(error + string) list \<Rightarrow> error + string" where
  "collect [] = Inr []"
| "collect (r # rs) =
     (case r of
        Inl e \<Rightarrow> Inl e
      | Inr s \<Rightarrow> (case collect rs of Inl e \<Rightarrow> Inl e | Inr t \<Rightarrow> Inr (s @ t)))"

definition to_text :: "error + jv \<Rightarrow> error + string" where
  "to_text r = (case r of Inl e \<Rightarrow> Inl e | Inr v \<Rightarrow> Inr (js_toString v))"

text \<open>\<open>x ? (Array.isArray(x) ? x : [x]) : []\<close>\<close>

definition as_list :: "jv \<Rightarrow> jv list" where
  "as_list v = (if truthy v then (case v of JArr xs \<Rightarrow> xs | _ \<Rightarrow> [v]) else [])"

section \<open>The quiz renderer: \<open>xmlhandlers\<close>\<close>

text \<open>
  A handler takes the node, the transformer to recurse with, and the depth. It returns
  a JavaScript value (a string, except where the fallback handler hands back a node's
  \<open>#text\<close> as it is) or raises.
\<close>

type_synonym transform = "jv \<Rightarrow> int \<Rightarrow> error + jv"

type_synonym handler = "jv \<Rightarrow> transform \<Rightarrow> int \<Rightarrow> error + jv"

text \<open>\<open>{ ...v, type: key, tagName: key }\<close>\<close>

definition obj_node :: "string \<Rightarrow> jv \<Rightarrow> jv" where
  "obj_node key v = JObj (obj_set (obj_set (entries v) ''type'' (JStr key)) ''tagName'' (JStr key))"

text \<open>\<open>{ type: "_", "#text": child }\<close>\<close>

definition text_node :: "jv \<Rightarrow> jv" where
  "text_node child = JObj [(''type'', JStr ''_''), (''#text'', child)]"

text \<open>\<open>{ ...h, type: "_", tagName: "hint" }\<close>\<close>

definition hint_node :: "jv \<Rightarrow> jv" where
  "hint_node h = JObj (obj_set (obj_set (entries h) ''type'' (JStr ''_'')) ''tagName'' (JStr ''hint''))"

text \<open>
  The tail every looping handler shares, for one key and its value: an array renders
  each element (an object as a node of kind \<open>key\<close>, a primitive as a text node), an
  object renders as a node of kind \<open>key\<close>, a string is appended as it is, and any other
  value adds nothing.
\<close>

definition render_value :: "transform \<Rightarrow> int \<Rightarrow> string \<Rightarrow> jv \<Rightarrow> error + string" where
  "render_value tr depth key v =
     (case v of
        JArr xs \<Rightarrow>
          collect (map (\<lambda>child. to_text (tr (if is_object child then obj_node key child
                                               else text_node child) depth)) xs)
      | JObj kvs \<Rightarrow> to_text (tr (obj_node key v) depth)
      | JStr s \<Rightarrow> Inr s
      | _ \<Rightarrow> Inr [])"

text \<open>\<open>typeof value === "string" && value.trim() === name\<close>\<close>

definition is_tag_text :: "string \<Rightarrow> jv \<Rightarrow> bool" where
  "is_tag_text name v = (case v of JStr s \<Rightarrow> trim s = name | _ \<Rightarrow> False)"

text \<open>
  The template-paragraph filter, for the value under key \<open>p\<close>:
  \<open>const text = value["#text"]?.trim() || ""\<close>, then skip when the text holds the
  template phrase or is empty.
\<close>

definition p_skipped :: "jv \<Rightarrow> error + bool" where
  "p_skipped v =
     (case get_prop v ''#text'' of
        Inl e \<Rightarrow> Inl e
      | Inr t \<Rightarrow>
          (case trim_or_empty t of
             Inl e \<Rightarrow> Inl e
           | Inr text \<Rightarrow> Inr (str_includes text ''You can use this template'' \<or> text = [])))"

definition render_unless_template :: "transform \<Rightarrow> int \<Rightarrow> string \<Rightarrow> jv \<Rightarrow> error + string" where
  "render_unless_template tr depth key v =
     (if key = ''p'' then
        (case p_skipped v of
           Inl e \<Rightarrow> Inl e
         | Inr skip \<Rightarrow> if skip then Inr [] else render_value tr depth key v)
      else render_value tr depth key v)"

definition xml_problem :: handler where
  "xml_problem node tr depth =
     (case collect (map (\<lambda>(key, v).
              if key \<noteq> ''#text'' \<and> key \<noteq> ''display_name'' \<and> key \<noteq> ''markdown'' \<and> is_object v
              then to_text (tr (obj_node key v) depth)
              else Inr []) (entries node)) of
        Inl e \<Rightarrow> Inl e
      | Inr content \<Rightarrow> Inr (JStr content))"

definition xml_multiplechoiceresponse :: handler where
  "xml_multiplechoiceresponse node tr depth =
     (case collect (map (\<lambda>(key, v).
              if key \<noteq> ''#text'' \<and> key \<noteq> ''type'' \<and> key \<noteq> ''display_name'' \<and> key \<noteq> ''markdown''
              then
                (if key = ''p'' then
                   (case p_skipped v of
                      Inl e \<Rightarrow> Inl e
                    | Inr skip \<Rightarrow>
                        if skip then Inr []
                        else if is_tag_text ''multiplechoiceresponse'' v then Inr []
                        else render_value tr depth key v)
                 else if is_tag_text ''multiplechoiceresponse'' v then Inr []
                 else render_value tr depth key v)
              else Inr []) (entries node)) of
        Inl e \<Rightarrow> Inl e
      | Inr content \<Rightarrow> Inr (JStr content))"

definition xml_choiceresponse :: handler where
  "xml_choiceresponse node tr depth =
     (case collect (map (\<lambda>(key, v).
              if key \<noteq> ''#text'' \<and> key \<noteq> ''type'' \<and> key \<noteq> ''display_name'' \<and> key \<noteq> ''markdown''
              then
                (if key = ''p'' then
                   (case p_skipped v of
                      Inl e \<Rightarrow> Inl e
                    | Inr skip \<Rightarrow>
                        if skip then Inr []
                        else if is_tag_text ''choiceresponse'' v then Inr []
                        else render_value tr depth key v)
                 else if is_tag_text ''choiceresponse'' v then Inr []
                 else render_value tr depth key v)
              else Inr []) (entries node)) of
        Inl e \<Rightarrow> Inl e
      | Inr content \<Rightarrow> Inr (JStr content))"

text \<open>\<open>node.answer || ""\<close>, as the template literal prints it.\<close>

definition answer_text :: "jv \<Rightarrow> string" where
  "answer_text node = (let a = get node ''answer'' in if truthy a then js_toString a else [])"

text \<open>The prompt content of a \<open>stringresponse\<close>: every key but the metadata ones.\<close>

definition stringresponse_content :: "jv \<Rightarrow> transform \<Rightarrow> int \<Rightarrow> error + string" where
  "stringresponse_content node tr depth =
     collect (map (\<lambda>(key, v).
        if key \<noteq> ''#text'' \<and> key \<noteq> ''answer'' \<and> key \<noteq> ''type'' \<and> key \<noteq> ''additional_answer''
        then
          (if is_tag_text ''stringresponse'' v then Inr []
           else render_unless_template tr depth key v)
        else Inr []) (entries node))"

definition xml_stringresponse :: handler where
  "xml_stringresponse node tr depth =
     (case stringresponse_content node tr depth of
        Inl e \<Rightarrow> Inl e
      | Inr content \<Rightarrow>
          Inr (JStr (trim content @ ''\<newline>\<newline>[['' @ answer_text node @ '']]\<newline>'')))"

definition numericalresponse_content :: "jv \<Rightarrow> transform \<Rightarrow> int \<Rightarrow> error + string" where
  "numericalresponse_content node tr depth =
     collect (map (\<lambda>(key, v).
        if key \<noteq> ''#text'' \<and> key \<noteq> ''answer''
        then
          (if is_tag_text ''numericalresponse'' v then Inr []
           else render_unless_template tr depth key v)
        else Inr []) (entries node))"

definition xml_numericalresponse :: handler where
  "xml_numericalresponse node tr depth =
     (case numericalresponse_content node tr depth of
        Inl e \<Rightarrow> Inl e
      | Inr content \<Rightarrow>
          Inr (JStr (trim content @ ''\<newline>\<newline>[['' @ answer_text node @ '']]\<newline>'')))"

definition xml_responseparam :: handler where
  "xml_responseparam node tr depth = Inr (JStr [])"

text \<open>
  The \<open>correct\<close> flag of a choice or option, as each site that reads it normalises it:
  absent is false, a boolean is itself, a string is compared with \<open>"true"\<close> after
  lower-casing, anything else goes through \<open>Boolean\<close>.
\<close>

definition correct_flag :: "jv \<Rightarrow> bool" where
  "correct_flag c =
     (case c of
        JUndef \<Rightarrow> False
      | JBool b \<Rightarrow> b
      | JStr s \<Rightarrow> toLowerCase s = ''true''
      | _ \<Rightarrow> truthy c)"

text \<open>One line of a choice block: \<open>`- ${box} ${text}\n`\<close>.\<close>

definition choice_line :: "string \<Rightarrow> string \<Rightarrow> jv \<Rightarrow> error + string" where
  "choice_line box_on box_off choice =
     (case get_prop choice ''correct'' of
        Inl e \<Rightarrow> Inl e
      | Inr c \<Rightarrow>
          (case trim_or_empty (get choice ''#text'') of
             Inl e \<Rightarrow> Inl e
           | Inr text \<Rightarrow>
               Inr (''- '' @ (if correct_flag c then box_on else box_off) @ '' '' @ text @ ''\<newline>'')))"

definition xml_choicegroup :: handler where
  "xml_choicegroup node tr depth =
     (case collect (map (choice_line ''[(x)]'' ''[( )]'') (as_list (get node ''choice''))) of
        Inl e \<Rightarrow> Inl e
      | Inr ls \<Rightarrow> Inr (JStr (''\<newline>\<newline>'' @ ls)))"

definition xml_choice :: handler where
  "xml_choice node tr depth =
     (case choice_line ''[(x)]'' ''[( )]'' node of
        Inl e \<Rightarrow> Inl e
      | Inr l \<Rightarrow> Inr (JStr l))"

definition xml_checkboxgroup :: handler where
  "xml_checkboxgroup node tr depth =
     (case collect (map (choice_line ''[[x]]'' ''[[ ]]'') (as_list (get node ''choice''))) of
        Inl e \<Rightarrow> Inl e
      | Inr ls \<Rightarrow> Inr (JStr (''\<newline>\<newline>'' @ ls)))"

text \<open>\<open>transform(...).trim()\<close>: only a string has the method.\<close>

definition hint_line :: "transform \<Rightarrow> int \<Rightarrow> jv \<Rightarrow> error + string" where
  "hint_line tr depth h =
     (case tr (hint_node h) depth of
        Inl e \<Rightarrow> Inl e
      | Inr (JStr s) \<Rightarrow> Inr (''- [[?]] '' @ trim s)
      | Inr _ \<Rightarrow> Inl TypeError)"

fun sequence :: "(error + 'a) list \<Rightarrow> error + 'a list" where
  "sequence [] = Inr []"
| "sequence (r # rs) =
     (case r of
        Inl e \<Rightarrow> Inl e
      | Inr x \<Rightarrow> (case sequence rs of Inl e \<Rightarrow> Inl e | Inr xs \<Rightarrow> Inr (x # xs)))"

definition xml_demandhint :: handler where
  "xml_demandhint node tr depth =
     (let hints = as_list (get node ''hint'') in
      if hints = [] then Inr (JStr [])
      else
        (case sequence (map (hint_line tr depth) hints) of
           Inl e \<Rightarrow> Inl e
         | Inr ls \<Rightarrow> Inr (JStr (intercalate ''\<newline>'' ls))))"

definition xml_choicehint :: handler where
  "xml_choicehint node tr depth = Inr (JStr [])"

definition xml_optionresponse :: handler where
  "xml_optionresponse node tr depth =
     (case collect (map (\<lambda>(key, v).
              if key \<noteq> ''#text''
              then
                (if is_tag_text ''optionresponse'' v then Inr []
                 else render_unless_template tr depth key v)
              else Inr []) (entries node)) of
        Inl e \<Rightarrow> Inl e
      | Inr content \<Rightarrow> Inr (JStr content))"

definition option_text :: "jv \<Rightarrow> error + string" where
  "option_text opt =
     (case get_prop opt ''#text'' of
        Inl e \<Rightarrow> Inl e
      | Inr t \<Rightarrow>
          (case trim_or_empty t of
             Inl e \<Rightarrow> Inl e
           | Inr text \<Rightarrow>
               Inr (if correct_flag (get opt ''correct'') then ''('' @ text @ '')'' else text)))"

definition xml_optioninput :: handler where
  "xml_optioninput node tr depth =
     (let options = as_list (get node ''option'') in
      if options = [] then Inr (JStr [])
      else
        (case sequence (map option_text options) of
           Inl e \<Rightarrow> Inl e
         | Inr ts \<Rightarrow>
             Inr (JStr (''\<newline>\<newline>[['' @ intercalate ''\<newline>| '' ts @ ''\<newline>]]\<newline>\<newline>''))))"

definition xml_option :: handler where
  "xml_option node tr depth = Inr (JStr [])"

definition xml_textline :: handler where
  "xml_textline node tr depth = Inr (JStr [])"

definition xml_additional_answer :: handler where
  "xml_additional_answer node tr depth = Inr (JStr [])"

definition xml_compoundhint :: handler where
  "xml_compoundhint node tr depth = Inr (JStr [])"

text \<open>The fallback handler \<open>_\<close>, in three parts: what its loop collects, the name it
  prints, and the handler.\<close>

definition default_content :: "jv \<Rightarrow> transform \<Rightarrow> int \<Rightarrow> error + string" where
  "default_content node tr depth =
     collect (map (\<lambda>(childKey, v).
        if childKey = ''#text'' \<or> childKey = ''tagName'' \<or> childKey = ''type'' then Inr []
        else render_value tr depth childKey v) (entries node))"

text \<open>\<open>node?.tagName || node?.type || "unknown"\<close>\<close>

definition default_tagName :: "jv \<Rightarrow> jv" where
  "default_tagName node =
     (if truthy (get node ''tagName'') then get node ''tagName''
      else if truthy (get node ''type'') then get node ''type''
      else JStr ''unknown'')"

definition unsupported_banner :: "jv \<Rightarrow> string" where
  "unsupported_banner name =
     ''> **Unsupported content: '' @ js_toString name @ '' component omitted**\<newline>\<newline>''"

definition xml_default :: handler where
  "xml_default node tr depth =
     (case node of
        JStr s \<Rightarrow> Inr node
      | _ \<Rightarrow>
          if truthy (get node ''#text'') then Inr (get node ''#text'')
          else
            (case default_content node tr depth of
               Inl e \<Rightarrow> Inl e
             | Inr content \<Rightarrow>
                 if trim content \<noteq> [] then Inr (JStr content)
                 else Inr (JStr (unsupported_banner (default_tagName node)))))"

section \<open>The transformer over the quiz handlers: \<open>xmlToMarkdown\<close>\<close>

text \<open>
  \<open>makeTransformer(handlers)\<close> returns the function
  \<open>transform(node, depth)\<close>: the empty string for a falsy node, otherwise the handler
  \<open>handlers[node.type] ?? handlers._\<close> applied to the node, \<open>transform\<close> itself and the
  depth. A handler table is an object literal, so a kind that names a member of
  \<open>Object.prototype\<close> finds that member, not the fallback.
\<close>

definition inherited :: "string \<Rightarrow> bool" where
  "inherited name = (name \<in> set [''constructor'', ''hasOwnProperty'', ''isPrototypeOf'',
     ''propertyIsEnumerable'', ''toLocaleString'', ''toString'', ''valueOf'', ''__proto__'',
     ''__defineGetter__'', ''__defineSetter__'', ''__lookupGetter__'', ''__lookupSetter__''])"

definition xmlhandlers :: "string \<Rightarrow> handler option" where
  "xmlhandlers = map_of
     [(''problem'', xml_problem),
      (''multiplechoiceresponse'', xml_multiplechoiceresponse),
      (''choiceresponse'', xml_choiceresponse),
      (''stringresponse'', xml_stringresponse),
      (''numericalresponse'', xml_numericalresponse),
      (''responseparam'', xml_responseparam),
      (''choicegroup'', xml_choicegroup),
      (''choice'', xml_choice),
      (''checkboxgroup'', xml_checkboxgroup),
      (''demandhint'', xml_demandhint),
      (''choicehint'', xml_choicehint),
      (''optionresponse'', xml_optionresponse),
      (''optioninput'', xml_optioninput),
      (''option'', xml_option),
      (''textline'', xml_textline),
      (''additional_answer'', xml_additional_answer),
      (''compoundhint'', xml_compoundhint),
      (''_'', xml_default)]"

definition xml_dispatch :: "string \<Rightarrow> handler" where
  "xml_dispatch name node tr depth =
     (case xmlhandlers name of
        Some fn \<Rightarrow> fn node tr depth
      | None \<Rightarrow> if inherited name then Inl Inherited else xml_default node tr depth)"

text \<open>
  The recursion of the transformer ends because a handler recurses only into nodes it
  makes from parts of its own node. \<open>value_calls\<close>, \<open>entry_calls\<close> and \<open>xml_calls\<close> list the
  nodes a handler can pass to \<open>transform\<close>; \<open>wt\<close> weighs a value by its objects, arrays
  and \<open>null\<close>s, which the added \<open>type\<close> and \<open>tagName\<close> strings do not change; \<open>agree_on\<close>
  says that two transformers give the same results on a list of nodes.
\<close>

definition value_calls :: "string \<Rightarrow> jv \<Rightarrow> jv list" where
  "value_calls key v =
     (if is_object v then [obj_node key v] else []) @
     (case v of
        JArr xs \<Rightarrow> map (\<lambda>child. if is_object child then obj_node key child else text_node child) xs
      | _ \<Rightarrow> [])"

definition entry_calls :: "jv \<Rightarrow> jv list" where
  "entry_calls node = concat (map (\<lambda>(k, v). value_calls k v) (entries node))"

definition xml_calls :: "string \<Rightarrow> jv \<Rightarrow> jv list" where
  "xml_calls name node =
     (if name = ''demandhint'' then map hint_node (as_list (get node ''hint''))
      else entry_calls node)"

fun wt :: "jv \<Rightarrow> nat" where
  "wt JNull = 1"
| "wt (JArr xs) = Suc (sum_list (map wt xs))"
| "wt (JObj kvs) = Suc (sum_list (map (\<lambda>kv. wt (snd kv)) kvs))"
| "wt v = 0"

definition agree_on :: "jv list \<Rightarrow> int \<Rightarrow> transform \<Rightarrow> transform \<Rightarrow> bool" where
  "agree_on cs depth tr tr' = (\<forall>c \<in> set cs. tr c depth = tr' c depth)"

lemma collect_map_cong:
  "(\<And>x. x \<in> set xs \<Longrightarrow> f x = g x) \<Longrightarrow> collect (map f xs) = collect (map g xs)"
  by (rule arg_cong [where f = collect]) (rule map_cong [OF refl])

lemma render_value_cong:
  assumes "agree_on (value_calls key v) depth tr tr'"
  shows "render_value tr depth key v = render_value tr' depth key v"
proof (cases v)
  case (JArr xs)
  show ?thesis
    unfolding render_value_def JArr jv.case
    by (rule collect_map_cong) (use assms in \<open>simp add: JArr value_calls_def agree_on_def\<close>)
next
  case (JObj kvs)
  then show ?thesis using assms by (simp add: render_value_def value_calls_def agree_on_def)
qed (simp_all add: render_value_def)

lemma render_unless_template_cong:
  assumes "agree_on (value_calls key v) depth tr tr'"
  shows "render_unless_template tr depth key v = render_unless_template tr' depth key v"
  by (simp only: render_unless_template_def render_value_cong [OF assms])

lemma entry_callsD:
  assumes "agree_on (entry_calls node) depth tr tr'"
    and "(k, v) \<in> set (entries node)"
  shows "agree_on (value_calls k v) depth tr tr'"
  using assms by (force simp: entry_calls_def agree_on_def)

lemma entry_render_value:
  assumes "agree_on (entry_calls node) depth tr tr'" and "(k, v) \<in> set (entries node)"
  shows "render_value tr depth k v = render_value tr' depth k v"
  by (rule render_value_cong [OF entry_callsD [OF assms]])

lemma entry_render_unless_template:
  assumes "agree_on (entry_calls node) depth tr tr'" and "(k, v) \<in> set (entries node)"
  shows "render_unless_template tr depth k v = render_unless_template tr' depth k v"
  by (rule render_unless_template_cong [OF entry_callsD [OF assms]])

lemma entry_obj_node:
  assumes "agree_on (entry_calls node) depth tr tr'" and "(k, v) \<in> set (entries node)" and "is_object v"
  shows "tr (obj_node k v) depth = tr' (obj_node k v) depth"
  using entry_callsD [OF assms(1,2)] assms(3) by (simp add: value_calls_def agree_on_def)

lemma case_collect_cong:
  assumes "\<And>x. x \<in> set xs \<Longrightarrow> f x = g x"
  shows "(case collect (map f xs) of Inl e \<Rightarrow> Inl e | Inr c \<Rightarrow> h c) =
         (case collect (map g xs) of Inl e \<Rightarrow> Inl e | Inr c \<Rightarrow> h c)"
  using collect_map_cong [of xs f g] assms by simp

lemma xml_problem_cong:
  assumes "agree_on (entry_calls node) depth tr tr'"
  shows "xml_problem node tr depth = xml_problem node tr' depth"
  unfolding xml_problem_def
  by (rule case_collect_cong) (auto simp: entry_obj_node [OF assms])

lemma xml_multiplechoiceresponse_cong:
  assumes "agree_on (entry_calls node) depth tr tr'"
  shows "xml_multiplechoiceresponse node tr depth = xml_multiplechoiceresponse node tr' depth"
  unfolding xml_multiplechoiceresponse_def
  by (rule case_collect_cong) (auto simp: entry_render_value [OF assms] split: sum.splits)

lemma xml_choiceresponse_cong:
  assumes "agree_on (entry_calls node) depth tr tr'"
  shows "xml_choiceresponse node tr depth = xml_choiceresponse node tr' depth"
  unfolding xml_choiceresponse_def
  by (rule case_collect_cong) (auto simp: entry_render_value [OF assms] split: sum.splits)

lemma xml_stringresponse_cong:
  assumes "agree_on (entry_calls node) depth tr tr'"
  shows "xml_stringresponse node tr depth = xml_stringresponse node tr' depth"
  unfolding xml_stringresponse_def stringresponse_content_def
  by (rule case_collect_cong) (auto simp: entry_render_unless_template [OF assms])

lemma xml_numericalresponse_cong:
  assumes "agree_on (entry_calls node) depth tr tr'"
  shows "xml_numericalresponse node tr depth = xml_numericalresponse node tr' depth"
  unfolding xml_numericalresponse_def numericalresponse_content_def
  by (rule case_collect_cong) (auto simp: entry_render_unless_template [OF assms])

lemma xml_optionresponse_cong:
  assumes "agree_on (entry_calls node) depth tr tr'"
  shows "xml_optionresponse node tr depth = xml_optionresponse node tr' depth"
  unfolding xml_optionresponse_def
  by (rule case_collect_cong) (auto simp: entry_render_unless_template [OF assms])

lemma default_content_cong:
  assumes "agree_on (entry_calls node) depth tr tr'"
  shows "default_content node tr depth = default_content node tr' depth"
  unfolding default_content_def
  by (rule collect_map_cong) (auto simp: entry_render_value [OF assms])

lemma xml_default_cong:
  assumes "agree_on (entry_calls node) depth tr tr'"
  shows "xml_default node tr depth = xml_default node tr' depth"
  by (simp only: xml_default_def default_content_cong [OF assms])

lemma xml_demandhint_cong:
  assumes "agree_on (map hint_node (as_list (get node ''hint''))) depth tr tr'"
  shows "xml_demandhint node tr depth = xml_demandhint node tr' depth"
proof -
  have "\<And>h. h \<in> set (as_list (get node ''hint'')) \<Longrightarrow> hint_line tr depth h = hint_line tr' depth h"
    using assms by (simp add: hint_line_def agree_on_def)
  then show ?thesis
    unfolding xml_demandhint_def by (simp add: Let_def cong: map_cong)
qed

lemma xml_dispatch_agree:
  assumes "agree_on (xml_calls name node) depth tr tr'"
  shows "xml_dispatch name node tr depth = xml_dispatch name node tr' depth"
proof (cases "name = ''demandhint''")
  case True
  then show ?thesis
    using assms xml_demandhint_cong [of node depth tr tr']
    by (simp add: xml_dispatch_def xmlhandlers_def xml_calls_def)
next
  case False
  then have a: "agree_on (entry_calls node) depth tr tr'"
    using assms by (simp add: xml_calls_def)
  note c = xml_problem_cong [OF a] xml_multiplechoiceresponse_cong [OF a] xml_choiceresponse_cong [OF a]
    xml_stringresponse_cong [OF a] xml_numericalresponse_cong [OF a] xml_optionresponse_cong [OF a]
    xml_default_cong [OF a]
  show ?thesis
    using False c
    by (simp add: xml_dispatch_def xmlhandlers_def xml_responseparam_def xml_choicegroup_def xml_choice_def
        xml_checkboxgroup_def xml_choicehint_def xml_optioninput_def xml_option_def xml_textline_def
        xml_additional_answer_def xml_compoundhint_def)
qed

lemma xml_dispatch_cong [fundef_cong]:
  assumes "name = name'" "node = node'" "depth = depth'"
    and "\<And>c. c \<in> set (xml_calls name' node') \<Longrightarrow> tr c depth' = tr' c depth'"
  shows "xml_dispatch name node tr depth = xml_dispatch name' node' tr' depth'"
  using assms xml_dispatch_agree [of name' node' depth' tr tr'] by (simp add: agree_on_def)

function xmlToMarkdown :: "jv \<Rightarrow> int \<Rightarrow> error + jv" where
  "xmlToMarkdown node depth =
     (if \<not> truthy node then Inr (JStr [])
      else xml_dispatch (js_toString (get node ''type'')) node xmlToMarkdown depth)"
  by pat_completeness auto


lemma sum_wt_obj_set:
  "sum_list (map (\<lambda>kv. wt (snd kv)) (obj_set kvs k (JStr s))) \<le> sum_list (map (\<lambda>kv. wt (snd kv)) kvs)"
proof -
  have "sum_list (map (\<lambda>kv. wt (snd kv)) (map (\<lambda>(k', v'). if k' = k then (k', JStr s) else (k', v')) kvs))
          \<le> sum_list (map (\<lambda>kv. wt (snd kv)) kvs)"
    by (induction kvs) auto
  then show ?thesis by (simp add: obj_set_def)
qed

lemma sum_wt_indexed: "sum_list (map (\<lambda>kv. wt (snd kv)) (indexed i xs)) = sum_list (map wt xs)"
  by (induction xs arbitrary: i) auto

lemma wt_tagged:
  "wt (JObj (obj_set (obj_set kvs k (JStr s)) k' (JStr s'))) \<le> Suc (sum_list (map (\<lambda>kv. wt (snd kv)) kvs))"
  using sum_wt_obj_set [of "obj_set kvs k (JStr s)" k' s'] sum_wt_obj_set [of kvs k s] by simp

lemma sum_wt_entries_object: "is_object v \<Longrightarrow> Suc (sum_list (map (\<lambda>kv. wt (snd kv)) (entries v))) = wt v"
  by (cases v) (simp_all add: entries_def sum_wt_indexed)

lemma sum_wt_entries_other: "\<not> is_object v \<Longrightarrow> sum_list (map (\<lambda>kv. wt (snd kv)) (entries v)) = 0"
  by (cases v) (simp_all add: entries_def sum_wt_indexed o_def)

lemma wt_obj_node: "is_object v \<Longrightarrow> wt (obj_node key v) \<le> wt v"
  unfolding obj_node_def using wt_tagged [of "entries v"] sum_wt_entries_object [of v] by simp

lemma wt_text_node: "\<not> is_object v \<Longrightarrow> wt (text_node v) = 1"
  by (cases v) (simp_all add: text_node_def)

lemma wt_hint_node: "wt (hint_node h) \<le> max 1 (wt h)"
proof -
  have a: "wt (hint_node h) \<le> Suc (sum_list (map (\<lambda>kv. wt (snd kv)) (entries h)))"
    unfolding hint_node_def by (rule wt_tagged)
  show ?thesis
  proof (cases "is_object h")
    case True
    then show ?thesis using a sum_wt_entries_object [of h] by linarith
  next
    case False
    then show ?thesis using a sum_wt_entries_other [of h] by linarith
  qed
qed

lemma wt_member: "x \<in> set xs \<Longrightarrow> wt x \<le> sum_list (map wt xs)"
  by (induction xs) auto

lemma wt_entry: "(k, v) \<in> set kvs \<Longrightarrow> wt v \<le> sum_list (map (\<lambda>kv. wt (snd kv)) kvs)"
  by (induction kvs) auto

lemma wt_entries: "(k, v) \<in> set (entries node) \<Longrightarrow> is_object v \<Longrightarrow> wt v < wt node"
proof (cases node)
  case (JArr xs)
  assume "(k, v) \<in> set (entries node)"
  then show ?thesis using wt_entry [of k v "indexed 0 xs"] JArr by (simp add: entries_def sum_wt_indexed)
next
  case (JObj kvs)
  assume "(k, v) \<in> set (entries node)"
  then show ?thesis using wt_entry [of k v kvs] JObj by (simp add: entries_def)
next
  case (JStr s)
  assume "(k, v) \<in> set (entries node)" "is_object v"
  moreover have "\<And>i. \<forall>kv \<in> set (indexed i (map (\<lambda>c. JStr [c]) s)). \<not> is_object (snd kv)"
    by (induction s) auto
  ultimately show ?thesis using JStr by (force simp: entries_def)
qed (simp_all add: entries_def)

lemma wt_value_calls:
  assumes "(k, v) \<in> set (entries node)" and "c \<in> set (value_calls k v)"
  shows "wt c < wt node"
proof -
  from assms(2) consider "is_object v" "c = obj_node k v"
    | xs x where "v = JArr xs" "x \<in> set xs" "c = (if is_object x then obj_node k x else text_node x)"
    by (auto simp: value_calls_def split: if_splits jv.splits)
  then show ?thesis
  proof cases
    case 1
    then show ?thesis using wt_obj_node [of v k] wt_entries [OF assms(1)] by simp
  next
    case 2
    have "wt v < wt node" using wt_entries [OF assms(1)] 2(1) by simp
    moreover have "wt c \<le> sum_list (map wt xs) \<or> (wt c = 1)"
      using 2 wt_obj_node [of x k] wt_member [of x xs] wt_text_node [of x] by (cases "is_object x") auto
    ultimately show ?thesis using 2(1) by auto
  qed
qed

lemma map_of_replace:
  "map_of (map (\<lambda>(k', v'). if k' = k then (k', v) else (k', v')) kvs) x =
     (if x = k then (case map_of kvs k of None \<Rightarrow> None | Some y \<Rightarrow> Some v) else map_of kvs x)"
  by (induction kvs) (auto split: option.splits)

lemma map_of_obj_set: "map_of (obj_set kvs k v) = (map_of kvs)(k \<mapsto> v)"
proof (cases "k \<in> fst ` set kvs")
  case True
  then obtain y where "map_of kvs k = Some y"
    by (metis map_of_eq_None_iff not_Some_eq)
  with True show ?thesis by (simp add: obj_set_def fun_eq_iff map_of_replace)
next
  case False
  then have "map_of kvs k = None" by (simp add: map_of_eq_None_iff)
  with False show ?thesis by (auto simp: obj_set_def fun_eq_iff map_add_def split: option.splits)
qed

lemma get_hint_node_type: "get (hint_node h) ''type'' = JStr ''_''"
  by (simp add: hint_node_def get_def map_of_obj_set)

lemma wt_get:
  assumes "truthy (get node k)"
  shows "wt (get node k) < wt node"
proof (cases node)
  case (JObj kvs)
  with assms have "(k, get node k) \<in> set kvs"
    by (auto simp: get_def split: option.splits dest: map_of_SomeD)
  then show ?thesis using wt_entry [of k "get node k" kvs] JObj by simp
qed (use assms in \<open>simp_all add: get_def\<close>)

lemma wt_hint_calls:
  assumes "h \<in> set (as_list (get node ''hint''))"
  shows "wt (hint_node h) \<le> wt node"
proof -
  from assms have t: "truthy (get node ''hint'')" by (auto simp: as_list_def split: if_splits)
  have lt: "wt (get node ''hint'') < wt node" by (rule wt_get [OF t])
  have "max 1 (wt h) \<le> wt node"
  proof (cases "get node ''hint''")
    case (JArr xs)
    with assms t have "h \<in> set xs" by (simp add: as_list_def)
    then show ?thesis using wt_member [of h xs] lt JArr by simp
  qed (use assms t lt in \<open>auto simp: as_list_def\<close>)
  then show ?thesis using wt_hint_node [of h] by linarith
qed

termination xmlToMarkdown
proof (relation "measure (\<lambda>(node, depth). 2 * wt node + (if js_toString (get node ''type'') = ''demandhint'' then 1 else 0))")
  fix node :: jv and depth :: int and c
  assume "\<not> \<not> truthy node" and c: "c \<in> set (xml_calls (js_toString (get node ''type'')) node)"
  show "((c, depth), (node, depth)) \<in> measure (\<lambda>(node, depth). 2 * wt node + (if js_toString (get node ''type'') = ''demandhint'' then 1 else 0))"
  proof (cases "js_toString (get node ''type'') = ''demandhint''")
    case True
    with c obtain h where h: "h \<in> set (as_list (get node ''hint''))" "c = hint_node h"
      by (auto simp: xml_calls_def)
    then show ?thesis using True wt_hint_calls [OF h(1)] by (simp add: get_hint_node_type)
  next
    case False
    with c obtain k v where "(k, v) \<in> set (entries node)" "c \<in> set (value_calls k v)"
      by (auto simp: xml_calls_def entry_calls_def)
    then have "wt c < wt node" by (rule wt_value_calls)
    then show ?thesis using False by simp
  qed
qed simp


declare xmlToMarkdown.simps [simp del]




section \<open>The environment: file system, parsers, path functions\<close>

text \<open>
  What the converter imports from Node and from its two libraries is taken as given: the
  file system (\<open>fs.existsSync\<close>, \<open>fs.readFileSync\<close>), the two \<open>XMLParser\<close> instances (the
  renderer's, which also parses attribute values, and the tree builder's), the
  HTML-to-Markdown converter \<open>nhm.translate\<close>, and the functions of \<open>path\<close>. A read or a
  parse that raises is \<open>None\<close>.
\<close>

record env =
  existsSync :: "string \<Rightarrow> bool"
  readFileSync :: "string \<Rightarrow> string option"
  xmlParser_parse :: "string \<Rightarrow> jv option"
  parser_parse :: "string \<Rightarrow> jv option"
  nhm_translate :: "string \<Rightarrow> string option"
  path_basename :: "string \<Rightarrow> string"
  path_basename_ext :: "string \<Rightarrow> string \<Rightarrow> string"
  path_extname :: "string \<Rightarrow> string"
  path_dirname :: "string \<Rightarrow> string"
  path_join :: "string list \<Rightarrow> string"

text \<open>\<open>fs.existsSync(v)\<close> for any value: only a string names a path.\<close>

definition fs_exists :: "env \<Rightarrow> jv \<Rightarrow> bool" where
  "fs_exists e v = (case v of JStr p \<Rightarrow> existsSync e p | _ \<Rightarrow> False)"

text \<open>\<open>readXmlFile\<close>: the parsed file, or \<open>null\<close> when reading or parsing raises.\<close>

definition readXmlFile :: "env \<Rightarrow> string \<Rightarrow> jv" where
  "readXmlFile e filePath =
     (case readFileSync e filePath of
        None \<Rightarrow> JNull
      | Some xmlContent \<Rightarrow>
          (case xmlParser_parse e xmlContent of None \<Rightarrow> JNull | Some parsed \<Rightarrow> parsed))"

text \<open>\<open>{ ...xmlData, type: Object.keys(xmlData)[0], tagName: Object.keys(xmlData)[0] }\<close>\<close>

definition root_node :: "jv \<Rightarrow> jv" where
  "root_node xmlData =
     (let first = (case entries xmlData of [] \<Rightarrow> JUndef | (k, v) # rest \<Rightarrow> JStr k)
      in JObj (obj_set (obj_set (entries xmlData) ''type'' first) ''tagName'' first))"

definition error_reading :: "string \<Rightarrow> jv" where
  "error_reading filePath = JStr (''> **Error reading file: '' @ filePath @ ''**\<newline>\<newline>'')"

text \<open>
  \<open>readFileContent(filePath, type)\<close>. Its whole body is inside \<open>try\<close>, so an exception of
  the quiz renderer, of a read or of the HTML converter ends as the error banner.
\<close>

definition readFileContent :: "env \<Rightarrow> string \<Rightarrow> string \<Rightarrow> jv" where
  "readFileContent e filePath ty =
     (if \<not> existsSync e filePath then JStr (''> **File not found: '' @ filePath @ ''**\<newline>\<newline>'')
      else
        let ext = toLowerCase (path_extname e filePath) in
        if ty = ''xml'' \<or> ext = ''.xml'' then
          (let xmlData = readXmlFile e filePath in
           if truthy xmlData then
             (case xmlToMarkdown (root_node xmlData) 0 of
                Inl err \<Rightarrow> error_reading filePath
              | Inr md \<Rightarrow> md)
           else JStr (''> **Error parsing XML file: '' @ filePath @ ''**\<newline>\<newline>''))
        else if ty = ''html'' \<or> ext = ''.html'' \<or> ext = ''.htm'' then
          (case readFileSync e filePath of
             None \<Rightarrow> error_reading filePath
           | Some htmlContent \<Rightarrow>
               (case nhm_translate e htmlContent of
                  None \<Rightarrow> error_reading filePath
                | Some md \<Rightarrow> JStr md))
        else
          (case readFileSync e filePath of
             None \<Rightarrow> error_reading filePath
           | Some content \<Rightarrow> JStr content))"

section \<open>The course-tree renderer: \<open>markdownHandlers\<close>\<close>

text \<open>
  These handlers return strings. The two that read files call the module's
  \<open>readFileContent\<close>; here it is their first argument \<open>reader\<close>, so that a statement can
  say which of its results a handler depends on. \<open>treeToMarkdown\<close> passes
  \<open>readFileContent\<close>.
\<close>

type_synonym md_transform = "jv \<Rightarrow> int \<Rightarrow> error + string"

type_synonym md_handler = "jv \<Rightarrow> md_transform \<Rightarrow> int \<Rightarrow> error + string"

type_synonym reader = "string \<Rightarrow> string \<Rightarrow> jv"

text \<open>\<open>xs.map((child) => transform(child, d)).join("")\<close>; a value that is no array has no
  \<open>map\<close>.\<close>

definition render_each :: "md_transform \<Rightarrow> int \<Rightarrow> jv \<Rightarrow> error + string" where
  "render_each tr d xs =
     (case xs of JArr cs \<Rightarrow> collect (map (\<lambda>child. tr child d) cs) | _ \<Rightarrow> Inl TypeError)"

text \<open>\<open>if (xs) md += xs.map(...).join("")\<close>\<close>

definition render_if_present :: "md_transform \<Rightarrow> int \<Rightarrow> jv \<Rightarrow> error + string" where
  "render_if_present tr d xs = (if truthy xs then render_each tr d xs else Inr [])"

text \<open>\<open>"#".repeat(Math.min(depth + 1, 6))\<close>; a negative count raises.\<close>

definition heading_hashes :: "int \<Rightarrow> error + string" where
  "heading_hashes depth =
     (let headingLevel = min (depth + 1) 6
      in if headingLevel < 0 then Inl RangeError else Inr (replicate (nat headingLevel) CHR ''#''))"

text \<open>\<open>node.display_name || path.basename(node.file)\<close>; \<open>path.basename\<close> raises on a
  value that is no string.\<close>

definition name_or_basename :: "env \<Rightarrow> jv \<Rightarrow> error + string" where
  "name_or_basename e node =
     (if truthy (get node ''display_name'') then Inr (js_toString (get node ''display_name''))
      else (case get node ''file'' of JStr f \<Rightarrow> Inr (path_basename e f) | _ \<Rightarrow> Inl TypeError))"

definition md_about :: md_handler where
  "md_about node tr depth =
     (case heading_hashes depth of
        Inl err \<Rightarrow> Inl err
      | Inr hashes \<Rightarrow>
          (case render_if_present tr (depth + 1) (get node ''children'') of
             Inl err \<Rightarrow> Inl err
           | Inr body \<Rightarrow>
               Inr (hashes @ '' '' @ js_toString (get node ''display_name'') @ ''\<newline>\<newline>'' @ body)))"

definition md_course :: "env \<Rightarrow> md_handler" where
  "md_course e node tr depth =
     (case heading_hashes depth of
        Inl err \<Rightarrow> Inl err
      | Inr hashes \<Rightarrow>
          (case name_or_basename e node of
             Inl err \<Rightarrow> Inl err
           | Inr name \<Rightarrow>
               (case render_if_present tr (depth + 1) (get node ''children'') of
                  Inl err \<Rightarrow> Inl err
                | Inr body \<Rightarrow> Inr (hashes @ '' '' @ name @ ''\<newline>\<newline>'' @ body))))"

definition md_chapter :: "env \<Rightarrow> md_handler" where
  "md_chapter e node tr depth =
     (case heading_hashes depth of
        Inl err \<Rightarrow> Inl err
      | Inr hashes \<Rightarrow>
          (case name_or_basename e node of
             Inl err \<Rightarrow> Inl err
           | Inr name \<Rightarrow>
               (case render_if_present tr (depth + 1) (get node ''children'') of
                  Inl err \<Rightarrow> Inl err
                | Inr body \<Rightarrow> Inr (hashes @ '' '' @ name @ ''\<newline>\<newline>'' @ body))))"

definition md_sequential :: "env \<Rightarrow> md_handler" where
  "md_sequential e node tr depth =
     (case heading_hashes depth of
        Inl err \<Rightarrow> Inl err
      | Inr hashes \<Rightarrow>
          (case name_or_basename e node of
             Inl err \<Rightarrow> Inl err
           | Inr name \<Rightarrow>
               (case collect [render_if_present tr (depth + 1) (get node ''verticals''),
                              render_if_present tr (depth + 1) (get node ''problems''),
                              render_if_present tr (depth + 1) (get node ''children'')] of
                  Inl err \<Rightarrow> Inl err
                | Inr body \<Rightarrow> Inr (hashes @ '' '' @ name @ ''\<newline>\<newline>'' @ body))))"

definition md_vertical :: md_handler where
  "md_vertical node tr depth = render_if_present tr depth (get node ''children'')"

definition md_problem :: "reader \<Rightarrow> env \<Rightarrow> md_handler" where
  "md_problem reader e node tr depth =
     (let file = get node ''file'';
          md = (if truthy file \<and> fs_exists e file then
                  (let filePath = js_toString file;
                       ext = toLowerCase (path_extname e filePath);
                       ty = (if ext = ''.xml'' then ''xml'' else ''problem'')
                   in js_toString (reader filePath ty) @ ''\<newline>'')
                else [])
      in case render_if_present tr depth (get node ''children'') of
           Inl err \<Rightarrow> Inl err
         | Inr body \<Rightarrow> Inr (md @ body @ ''\<newline>\<newline>---\<newline>\<newline>''))"

definition md_html :: md_handler where
  "md_html node tr depth = render_if_present tr depth (get node ''children'')"

definition md_htmlContent :: "reader \<Rightarrow> env \<Rightarrow> md_handler" where
  "md_htmlContent reader e node tr depth =
     (let file = get node ''file'' in
      if truthy file \<and> fs_exists e file
      then Inr (js_toString (reader (js_toString file) ''html'') @ ''\<newline>\<newline>'')
      else Inr [])"

definition md_image :: "env \<Rightarrow> md_handler" where
  "md_image e node tr depth =
     (let file = get node ''file'' in
      if \<not> truthy file \<or> \<not> fs_exists e file then Inr []
      else
        (let filePath = js_toString file;
             altText = (if truthy (get node ''display_name'') then js_toString (get node ''display_name'')
                        else path_basename_ext e filePath (path_extname e filePath));
             imageName = path_basename e filePath
         in Inr (''!['' @ altText @ ''](../images/'' @ imageName @ '')\<newline>\<newline>'')))"

definition md_video :: md_handler where
  "md_video node tr depth =
     (let video = get node ''videoData'' in
      if \<not> truthy video then Inr []
      else
        (let displayName = (if truthy (get video ''display_name'') then get video ''display_name''
                            else JStr ''Video'');
             youtubeId = (if truthy (get video ''youtube_id_1_0'') then get video ''youtube_id_1_0''
                          else get video ''youtube'')
         in if truthy youtubeId
            then Inr (''!?['' @ js_toString displayName @ ''](https://www.youtube.com/watch?v=''
                      @ js_toString youtubeId @ '')\<newline>\<newline>'')
            else Inr []))"

definition md_default :: md_handler where
  "md_default node tr depth = render_if_present tr (depth + 1) (get node ''children'')"

definition markdownHandlers :: "reader \<Rightarrow> env \<Rightarrow> string \<Rightarrow> md_handler option" where
  "markdownHandlers reader e = map_of
     [(''about'', md_about),
      (''course'', md_course e),
      (''chapter'', md_chapter e),
      (''sequential'', md_sequential e),
      (''vertical'', md_vertical),
      (''problem'', md_problem reader e),
      (''html'', md_html),
      (''htmlContent'', md_htmlContent reader e),
      (''image'', md_image e),
      (''video'', md_video),
      (''_'', md_default)]"

definition md_dispatch :: "reader \<Rightarrow> env \<Rightarrow> string \<Rightarrow> md_handler" where
  "md_dispatch reader e name node tr depth =
     (case markdownHandlers reader e name of
        Some fn \<Rightarrow> fn node tr depth
      | None \<Rightarrow> if inherited name then Inl Inherited else md_default node tr depth)"

text \<open>
  \<open>treeToMarkdown = makeTransformer(markdownHandlers)\<close>. A handler recurses only into
  the elements of the node's \<open>verticals\<close>, \<open>problems\<close> and \<open>children\<close> arrays, which is
  what makes the recursion end.
\<close>

text \<open>The elements of a value that is an array, and the nodes a handler of the table can
  pass to \<open>transform\<close>.\<close>

definition array_items :: "jv \<Rightarrow> jv list" where
  "array_items v = (case v of JArr cs \<Rightarrow> cs | _ \<Rightarrow> [])"

definition md_calls :: "jv \<Rightarrow> jv list" where
  "md_calls node =
     array_items (get node ''verticals'') @ array_items (get node ''problems'') @
     array_items (get node ''children'')"

definition md_agree :: "jv list \<Rightarrow> md_transform \<Rightarrow> md_transform \<Rightarrow> bool" where
  "md_agree cs tr tr' = (\<forall>c \<in> set cs. \<forall>d. tr c d = tr' c d)"

lemma render_if_present_cong:
  assumes "md_agree (array_items xs) tr tr'"
  shows "render_if_present tr d xs = render_if_present tr' d xs"
proof (cases xs)
  case (JArr cs)
  have "collect (map (\<lambda>child. tr child d) cs) = collect (map (\<lambda>child. tr' child d) cs)"
    by (rule collect_map_cong) (use assms JArr in \<open>simp add: md_agree_def array_items_def\<close>)
  then show ?thesis by (simp add: render_if_present_def render_each_def JArr)
qed (simp_all add: render_if_present_def render_each_def)

lemma md_agree_children:
  assumes "md_agree (md_calls node) tr tr'"
  shows "md_agree (array_items (get node ''children'')) tr tr'"
    and "md_agree (array_items (get node ''verticals'')) tr tr'"
    and "md_agree (array_items (get node ''problems'')) tr tr'"
  using assms by (auto simp: md_agree_def md_calls_def)

lemma md_dispatch_agree:
  assumes "md_agree (md_calls node) tr tr'"
  shows "md_dispatch reader e name node tr depth = md_dispatch reader e name node tr' depth"
proof -
  note r = render_if_present_cong [OF md_agree_children(1) [OF assms]]
    render_if_present_cong [OF md_agree_children(2) [OF assms]]
    render_if_present_cong [OF md_agree_children(3) [OF assms]]
  show ?thesis
    by (simp add: md_dispatch_def markdownHandlers_def md_about_def md_course_def md_chapter_def
        md_sequential_def md_vertical_def md_problem_def md_html_def md_htmlContent_def md_image_def
        md_video_def md_default_def r cong: sum.case_cong)
qed

lemma md_dispatch_cong [fundef_cong]:
  assumes "reader = reader'" "e = e'" "name = name'" "node = node'" "depth = depth'"
    and "\<And>c d. c \<in> set (md_calls node') \<Longrightarrow> tr c d = tr' c d"
  shows "md_dispatch reader e name node tr depth = md_dispatch reader' e' name' node' tr' depth'"
  using assms md_dispatch_agree [of node' tr tr' reader' e' name' depth'] by (simp add: md_agree_def)

function treeToMarkdown_with :: "reader \<Rightarrow> env \<Rightarrow> jv \<Rightarrow> int \<Rightarrow> error + string" where
  "treeToMarkdown_with reader e node depth =
     (if \<not> truthy node then Inr []
      else md_dispatch reader e (js_toString (get node ''type'')) node (treeToMarkdown_with reader e) depth)"
  by pat_completeness auto

lemma wt_array_item:
  assumes "c \<in> set (array_items (get node k))"
  shows "wt c < wt node"
proof -
  from assms obtain cs where cs: "get node k = JArr cs" "c \<in> set cs"
    by (cases "get node k") (auto simp: array_items_def)
  then have "wt (get node k) < wt node" by (intro wt_get) simp
  then show ?thesis using cs wt_member [of c cs] by simp
qed

termination treeToMarkdown_with
proof (relation "measure (\<lambda>(reader, e, node, depth). wt node)")
  fix reader :: reader and e :: env and node :: jv and depth :: int and c :: jv and d :: int
  assume "c \<in> set (md_calls node)"
  then have "wt c < wt node" by (auto simp: md_calls_def dest: wt_array_item)
  then show "((reader, e, c, d), (reader, e, node, depth)) \<in> measure (\<lambda>(reader, e, node, depth). wt node)"
    by simp
qed simp

definition treeToMarkdown :: "env \<Rightarrow> jv \<Rightarrow> int \<Rightarrow> error + string" where
  "treeToMarkdown e = treeToMarkdown_with (readFileContent e) e"


declare treeToMarkdown_with.simps [simp del]

section \<open>The course tree builder: \<open>buildTree\<close>\<close>

text \<open>
  \<open>buildTree(filePath, type)\<close> reads one pointer file and follows its references. Which
  branch runs depends on the root element the file holds, so a file that refers back to
  itself or to an ancestor makes the recursion run until the stack is exhausted. The
  first argument bounds the nesting of calls; \<open>None\<close> is a call that does not return
  within the bound. \<open>Some (Inl err)\<close> is an exception, \<open>Some (Inr JNull)\<close> the result
  \<open>null\<close>.
\<close>

definition ends_with :: "string \<Rightarrow> string \<Rightarrow> bool" where
  "ends_with s suffix = (length suffix \<le> length s \<and> drop (length s - length suffix) s = suffix)"

definition parseXmlFile :: "env \<Rightarrow> string \<Rightarrow> jv" where
  "parseXmlFile e filePath =
     (case readFileSync e filePath of
        None \<Rightarrow> JNull
      | Some xmlContent \<Rightarrow>
          (case parser_parse e xmlContent of None \<Rightarrow> JNull | Some parsed \<Rightarrow> parsed))"

definition or_null :: "jv \<Rightarrow> jv" where
  "or_null v = (if truthy v then v else JNull)"

definition and_then :: "(error + 'a) option \<Rightarrow> ('a \<Rightarrow> (error + 'b) option) \<Rightarrow> (error + 'b) option" where
  "and_then r f = (case r of None \<Rightarrow> None | Some (Inl err) \<Rightarrow> Some (Inl err) | Some (Inr x) \<Rightarrow> f x)"

fun build_each :: "(jv \<Rightarrow> (error + jv) option) \<Rightarrow> jv list \<Rightarrow> (error + jv list) option" where
  "build_each f [] = Some (Inr [])"
| "build_each f (x # xs) =
     and_then (f x) (\<lambda>v. and_then (build_each f xs) (\<lambda>vs. Some (Inr (if truthy v then v # vs else vs))))"

definition ref_path :: "env \<Rightarrow> string \<Rightarrow> string \<Rightarrow> jv \<Rightarrow> (error + string) option" where
  "ref_path e parentDir kind r =
     (case get_prop r ''url_name'' of
        Inl err \<Rightarrow> Some (Inl err)
      | Inr u \<Rightarrow> Some (Inr (path_join e [parentDir, kind, js_toString u @ ''.xml''])))"

definition overview_child :: "string \<Rightarrow> jv" where
  "overview_child p =
     JObj [(''type'', JStr ''htmlContent''), (''file'', JStr p), (''display_name'', JStr ''Course Overview'')]"

definition about_node :: "env \<Rightarrow> jv \<Rightarrow> string \<Rightarrow> string \<Rightarrow> jv" where
  "about_node e obj dir filePath =
     (let overviewHtmlPath = path_join e [dir, ''course'', ''overview.html''];
          children = (if existsSync e overviewHtmlPath then [overview_child overviewHtmlPath] else [])
      in JObj [(''type'', JStr ''about''),
               (''display_name'', (if truthy (get (get obj ''about'') ''display_name'')
                                   then get (get obj ''about'') ''display_name'' else JStr ''About'')),
               (''file'', JStr filePath),
               (''children'', JArr children)])"

definition course_about :: "env \<Rightarrow> string \<Rightarrow> jv list" where
  "course_about e dir =
     (let courseRootDir = path_dirname e dir;
          overviewPath = path_join e [courseRootDir, ''about'', ''overview.html'']
      in if existsSync e overviewPath
         then [JObj [(''type'', JStr ''about''), (''display_name'', JStr ''About''),
                     (''children'', JArr [overview_child overviewPath])]]
         else [])"

definition problem_node :: "jv \<Rightarrow> string \<Rightarrow> jv" where
  "problem_node obj filePath =
     JObj [(''type'', JStr ''problem''),
           (''display_name'', or_null (get (get obj ''problem'') ''display_name'')),
           (''file'', JStr filePath),
           (''problemData'', get obj ''problem''),
           (''children'', JArr [])]"

definition html_node :: "env \<Rightarrow> jv \<Rightarrow> string \<Rightarrow> string \<Rightarrow> jv" where
  "html_node e obj dir filePath =
     (let html = get obj ''html'';
          baseName = (if truthy (get html ''filename'') then get html ''filename''
                      else JStr (path_basename_ext e filePath ''.xml''));
          htmlFilePath = path_join e [dir, js_toString baseName @ ''.html''];
          children = (if existsSync e htmlFilePath
                      then [JObj [(''type'', JStr ''htmlContent''), (''file'', JStr htmlFilePath),
                                  (''display_name'', (if truthy (get html ''display_name'')
                                                      then get html ''display_name'' else baseName))]]
                      else [])
      in JObj [(''type'', JStr ''html''),
               (''display_name'', or_null (get html ''display_name'')),
               (''file'', JStr filePath),
               (''children'', JArr children)])"

definition video_node :: "jv \<Rightarrow> string \<Rightarrow> jv" where
  "video_node obj filePath =
     JObj [(''type'', JStr ''video''),
           (''display_name'', or_null (get (get obj ''video'') ''display_name'')),
           (''file'', JStr filePath),
           (''videoData'', get obj ''video''),
           (''children'', JArr [])]"

definition vertical_container :: "jv \<Rightarrow> jv \<Rightarrow> jv" where
  "vertical_container vert verticalNode =
     (if truthy verticalNode \<and> truthy (get verticalNode ''children'')
      then JObj [(''type'', JStr ''vertical-container''),
                 (''display_name'', get verticalNode ''display_name''),
                 (''url_name'', get vert ''url_name''),
                 (''children'', get verticalNode ''children'')]
      else JNull)"

text \<open>
  One reference of a parent, with \<open>build\<close> standing for the recursive call:
  \<open>buildTree(path.join(parentDir, kind, r.url_name + ".xml"), kind)\<close> for a chapter or a
  sequential; the same behind \<open>fs.existsSync\<close> for a problem, an html or a video; and for
  a vertical the built node repackaged as a \<open>vertical-container\<close>.
\<close>

definition build_child ::
  "(string \<Rightarrow> string \<Rightarrow> (error + jv) option) \<Rightarrow> env \<Rightarrow> string \<Rightarrow> string \<Rightarrow> jv \<Rightarrow> (error + jv) option" where
  "build_child build e parentDir kind r =
     and_then (ref_path e parentDir kind r) (\<lambda>childPath. build childPath kind)"

definition build_leaf ::
  "(string \<Rightarrow> string \<Rightarrow> (error + jv) option) \<Rightarrow> env \<Rightarrow> string \<Rightarrow> string \<Rightarrow> jv \<Rightarrow> (error + jv) option" where
  "build_leaf build e parentDir kind r =
     and_then (ref_path e parentDir kind r)
       (\<lambda>leafPath. if existsSync e leafPath then build leafPath kind else Some (Inr JNull))"

definition build_container ::
  "(string \<Rightarrow> string \<Rightarrow> (error + jv) option) \<Rightarrow> env \<Rightarrow> string \<Rightarrow> jv \<Rightarrow> (error + jv) option" where
  "build_container build e parentDir vert =
     and_then (ref_path e parentDir ''vertical'' vert)
       (\<lambda>verticalPath.
          and_then (build verticalPath ''vertical'')
            (\<lambda>verticalNode. Some (Inr (vertical_container vert verticalNode))))"

fun buildTree :: "nat \<Rightarrow> env \<Rightarrow> string \<Rightarrow> string \<Rightarrow> (error + jv) option" where
  "buildTree 0 e filePath ty = None"
| "buildTree (Suc n) e filePath ty =
     (if \<not> existsSync e filePath \<or> \<not> ends_with filePath ''.xml'' then Some (Inr JNull)
      else
        let obj = parseXmlFile e filePath in
        if \<not> truthy obj then Some (Inr JNull)
        else
          let dir = path_dirname e filePath; parentDir = path_dirname e dir in
          if ty = ''about'' \<and> truthy (get obj ''about'') then Some (Inr (about_node e obj dir filePath))
          else if truthy (get obj ''course'') then
            and_then
              (build_each (build_child (buildTree n e) e parentDir ''chapter'')
                 (as_list (get (get obj ''course'') ''chapter'')))
              (\<lambda>chapters.
                 Some (Inr (JObj [(''type'', JStr ''course''),
                                  (''display_name'', get (get obj ''course'') ''display_name''),
                                  (''file'', JStr filePath),
                                  (''children'', JArr (course_about e dir @ chapters))])))
          else if truthy (get obj ''chapter'') then
            and_then
              (build_each (build_child (buildTree n e) e parentDir ''sequential'')
                 (as_list (get (get obj ''chapter'') ''sequential'')))
              (\<lambda>sequentials.
                 Some (Inr (JObj [(''type'', JStr ''chapter''),
                                  (''display_name'', or_null (get (get obj ''chapter'') ''display_name'')),
                                  (''file'', JStr filePath),
                                  (''children'', JArr sequentials)])))
          else if truthy (get obj ''sequential'') then
            and_then
              (build_each (build_container (buildTree n e) e parentDir)
                 (as_list (get (get obj ''sequential'') ''vertical'')))
              (\<lambda>verticalContainers.
                 Some (Inr (JObj [(''type'', JStr ''sequential''),
                                  (''display_name'', or_null (get (get obj ''sequential'') ''display_name'')),
                                  (''file'', JStr filePath),
                                  (''children'', JArr verticalContainers)])))
          else if truthy (get obj ''vertical'') then
            and_then
              (build_each (build_leaf (buildTree n e) e parentDir ''problem'')
                 (as_list (get (get obj ''vertical'') ''problem'')))
              (\<lambda>problems.
                 and_then
                   (build_each (build_leaf (buildTree n e) e parentDir ''html'')
                      (as_list (get (get obj ''vertical'') ''html'')))
                   (\<lambda>htmls.
                      and_then
                        (build_each (build_leaf (buildTree n e) e parentDir ''video'')
                           (as_list (get (get obj ''vertical'') ''video'')))
                        (\<lambda>videos.
                           Some (Inr (JObj [(''type'', JStr ''vertical''),
                                            (''display_name'', or_null (get (get obj ''vertical'') ''display_name'')),
                                            (''file'', JStr filePath),
                                            (''children'', JArr (problems @ htmls @ videos))])))))
          else if truthy (get obj ''problem'') then Some (Inr (problem_node obj filePath))
          else if truthy (get obj ''html'') then Some (Inr (html_node e obj dir filePath))
          else if truthy (get obj ''video'') then Some (Inr (video_node obj filePath))
          else Some (Inr JNull))"

declare buildTree.simps [simp del]

section \<open>A course directory to run the definitions on\<close>

text \<open>
  A small export with POSIX paths: one course with three chapter references (one file
  present, one missing, one that does not parse), a sequential, and a vertical whose
  XML lists an html, a problem, a video and a second problem in this order. The parse
  tables give what the two parsers return for each file's text; the renderer's parser
  turns attribute values into booleans and numbers, the builder's keeps them as strings.
\<close>

text \<open>
  \<open>path.basename\<close>, \<open>path.dirname\<close> and \<open>path.extname\<close> of POSIX paths: trailing slashes do
  not count, the directory of a path without one is \<open>"."\<close>, and a dot that starts the base
  name starts no extension. \<open>path.join\<close> is taken on plain segments only (none empty, none
  \<open>"."\<close> or \<open>".."\<close>, no slash at a seam), where it puts a slash between them.
\<close>

definition posix_basename :: "string \<Rightarrow> string" where
  "posix_basename p =
     rev (takeWhile (\<lambda>c. c \<noteq> CHR ''/'') (dropWhile (\<lambda>c. c = CHR ''/'') (rev p)))"

definition posix_dirname :: "string \<Rightarrow> string" where
  "posix_dirname p =
     (let r = dropWhile (\<lambda>c. c \<noteq> CHR ''/'') (dropWhile (\<lambda>c. c = CHR ''/'') (rev p)) in
      if length r \<le> 1 then (if take 1 p = ''/'' then ''/'' else ''.'')
      else if length r = 2 \<and> take 1 p = ''/'' then ''//''
      else rev (tl r))"

definition posix_extname :: "string \<Rightarrow> string" where
  "posix_extname p =
     (let b = posix_basename p;
          ext = rev (takeWhile (\<lambda>c. c \<noteq> CHR ''.'') (rev b)) in
      if CHR ''.'' \<notin> set b \<or> length ext + 1 = length b \<or> b = ''..'' then []
      else CHR ''.'' # ext)"

definition posix_basename_ext :: "string \<Rightarrow> string \<Rightarrow> string" where
  "posix_basename_ext p ext =
     (let b = posix_basename p in
      if ends_with b ext \<and> b \<noteq> ext then take (length b - length ext) b else b)"

definition demo_files :: "(string \<times> string) list" where
  "demo_files =
     [(''/c/course/course.xml'',
         ''<course display_name=X><chapter url_name=ch1/><chapter url_name=gone/><chapter url_name=bad/></course>''),
      (''/c/chapter/ch1.xml'', ''<chapter display_name=Y><sequential url_name=s1/></chapter>''),
      (''/c/chapter/bad.xml'', ''<chapter''),
      (''/c/sequential/s1.xml'', ''<sequential display_name=Z><vertical url_name=v1/></sequential>''),
      (''/c/vertical/v1.xml'',
         ''<vertical><html url_name=h1/><problem url_name=p1/><video url_name=w1/><problem url_name=p2/></vertical>''),
      (''/c/problem/p1.xml'',
         ''<problem><multiplechoiceresponse><label>Pick</label><choicegroup><choice correct=true>A</choice><choice correct=false>B</choice></choicegroup></multiplechoiceresponse></problem>''),
      (''/c/problem/p2.xml'',
         ''<problem><stringresponse answer=42><label>Enter value</label></stringresponse></problem>''),
      (''/c/html/h1.xml'', ''<html filename=h1/>''),
      (''/c/html/h1.html'', ''<p>Hello</p>''),
      (''/c/video/w1.xml'', ''<video youtube_id_1_0=abc/>'')]"

definition ref :: "string \<Rightarrow> jv" where
  "ref u = JObj [(''url_name'', JStr u)]"

definition demo_tree_parses :: "(string \<times> jv) list" where
  "demo_tree_parses =
     [(''<course display_name=X><chapter url_name=ch1/><chapter url_name=gone/><chapter url_name=bad/></course>'',
         JObj [(''course'', JObj [(''chapter'', JArr [ref ''ch1'', ref ''gone'', ref ''bad'']),
                                  (''display_name'', JStr ''X'')])]),
      (''<chapter display_name=Y><sequential url_name=s1/></chapter>'',
         JObj [(''chapter'', JObj [(''sequential'', ref ''s1''), (''display_name'', JStr ''Y'')])]),
      (''<sequential display_name=Z><vertical url_name=v1/></sequential>'',
         JObj [(''sequential'', JObj [(''vertical'', ref ''v1''), (''display_name'', JStr ''Z'')])]),
      (''<vertical><html url_name=h1/><problem url_name=p1/><video url_name=w1/><problem url_name=p2/></vertical>'',
         JObj [(''vertical'', JObj [(''html'', ref ''h1''),
                                    (''problem'', JArr [ref ''p1'', ref ''p2'']),
                                    (''video'', ref ''w1'')])]),
      (''<problem><multiplechoiceresponse><label>Pick</label><choicegroup><choice correct=true>A</choice><choice correct=false>B</choice></choicegroup></multiplechoiceresponse></problem>'',
         JObj [(''problem'', JObj [(''multiplechoiceresponse'',
            JObj [(''label'', JStr ''Pick''),
                  (''choicegroup'', JObj [(''choice'',
                     JArr [JObj [(''#text'', JStr ''A''), (''correct'', JStr ''true'')],
                           JObj [(''#text'', JStr ''B''), (''correct'', JStr ''false'')]])])])])]),
      (''<problem><stringresponse answer=42><label>Enter value</label></stringresponse></problem>'',
         JObj [(''problem'', JObj [(''stringresponse'',
            JObj [(''label'', JStr ''Enter value''), (''answer'', JStr ''42'')])])]),
      (''<html filename=h1/>'', JObj [(''html'', JObj [(''filename'', JStr ''h1'')])]),
      (''<video youtube_id_1_0=abc/>'', JObj [(''video'', JObj [(''youtube_id_1_0'', JStr ''abc'')])])]"

definition demo_xml_parses :: "(string \<times> jv) list" where
  "demo_xml_parses =
     [(''<problem><multiplechoiceresponse><label>Pick</label><choicegroup><choice correct=true>A</choice><choice correct=false>B</choice></choicegroup></multiplechoiceresponse></problem>'',
         JObj [(''problem'', JObj [(''multiplechoiceresponse'',
            JObj [(''label'', JStr ''Pick''),
                  (''choicegroup'', JObj [(''choice'',
                     JArr [JObj [(''#text'', JStr ''A''), (''correct'', JBool True)],
                           JObj [(''#text'', JStr ''B''), (''correct'', JBool False)]])])])])]),
      (''<problem><stringresponse answer=42><label>Enter value</label></stringresponse></problem>'',
         JObj [(''problem'', JObj [(''stringresponse'',
            JObj [(''label'', JStr ''Enter value''), (''answer'', JNum 42)])])])]"

definition demo_env :: env where
  "demo_env =
     \<lparr> existsSync = (\<lambda>p. p \<in> set (map fst demo_files)),
       readFileSync = map_of demo_files,
       xmlParser_parse = map_of demo_xml_parses,
       parser_parse = map_of demo_tree_parses,
       nhm_translate = map_of [(''<p>Hello</p>'', ''Hello'')],
       path_basename = posix_basename,
       path_basename_ext = posix_basename_ext,
       path_extname = posix_extname,
       path_dirname = posix_dirname,
       path_join = intercalate ''/'' \<rparr>"


section \<open>Properties\<close>

subsection \<open>Choice and checkbox groups\<close>

lemma get_null_undef [simp]: "get JNull k = JUndef" "get JUndef k = JUndef"
  by (simp_all add: get_def)

lemma choice_line_text:
  assumes "get c ''#text'' = JStr t"
  shows "choice_line box_on box_off c =
           Inr (''- '' @ (if correct_flag (get c ''correct'') then box_on else box_off) @ '' '' @ trim t @ ''\<newline>'')"
proof -
  from assms have "c \<noteq> JNull" "c \<noteq> JUndef" by auto
  then have "get_prop c ''correct'' = Inr (get c ''correct'')"
    by (cases c) (simp_all add: get_prop_def)
  then show ?thesis using assms by (simp add: choice_line_def trim_or_empty_def)
qed

lemma choice_lines_two:
  assumes "get node ''choice'' = JArr [a, b]"
    and "get a ''#text'' = JStr ta" and "get b ''#text'' = JStr tb"
  shows "collect (map (choice_line box_on box_off) (as_list (get node ''choice''))) =
           Inr (''- '' @ (if correct_flag (get a ''correct'') then box_on else box_off) @ '' '' @ trim ta @ ''\<newline>''
              @ ''- '' @ (if correct_flag (get b ''correct'') then box_on else box_off) @ '' '' @ trim tb @ ''\<newline>'')"
  using assms by (simp add: as_list_def choice_line_text)

lemma correct_flag_true:
  assumes "c = JBool True \<or> (\<exists>s. c = JStr s \<and> toLowerCase s = ''true'')"
  shows "correct_flag c"
  using assms by (auto simp: correct_flag_def)

lemma correct_flag_false:
  assumes "c = JBool False \<or> c = JUndef \<or> (\<exists>s. c = JStr s \<and> toLowerCase s = ''false'')"
  shows "\<not> correct_flag c"
  using assms by (auto simp: correct_flag_def)

lemma trim_last: "trim s \<noteq> [] \<Longrightarrow> \<not> is_space (last (trim s))"
proof -
  assume ne: "trim s \<noteq> []"
  let ?r = "dropWhile is_space (rev (dropWhile is_space s))"
  from ne have "?r \<noteq> []" by (simp add: trim_def)
  then have "\<not> is_space (hd ?r)" by (rule hd_dropWhile)
  moreover have "last (trim s) = hd ?r" using \<open>?r \<noteq> []\<close> by (simp add: trim_def last_rev)
  ultimately show ?thesis by simp
qed

lemma ends_withD: "ends_with s t \<Longrightarrow> \<exists>p. s = p @ t"
  by (metis append_take_drop_id ends_with_def)

lemma no_blank_line_after:
  "\<not> ends_with (pre @ '' '' @ trim t @ ''\<newline>'') ''\<newline>\<newline>''"
proof
  assume "ends_with (pre @ '' '' @ trim t @ ''\<newline>'') ''\<newline>\<newline>''"
  then obtain p where "pre @ '' '' @ trim t @ ''\<newline>'' = p @ ''\<newline>\<newline>''"
    using ends_withD by blast
  then have "(pre @ '' '' @ trim t) @ ''\<newline>'' = (p @ ''\<newline>'') @ ''\<newline>''" by simp
  then have "pre @ '' '' @ trim t = p @ ''\<newline>''" by (simp only: append_same_eq)
  then have "last (pre @ '' '' @ trim t) = CHR ''\<newline>''" by simp
  moreover have "last (pre @ '' '' @ trim t) \<noteq> CHR ''\<newline>''"
  proof (cases "trim t = []")
    case True then show ?thesis by simp
  next
    case False
    then have "\<not> is_space (last (trim t))" by (rule trim_last)
    then show ?thesis using False by (auto simp: is_space_def)
  qed
  ultimately show False by simp
qed


text \<open>
  The two group handlers read a choice's text as \<open>choice["#text"]?.trim() || ""\<close>. A choice
  element without attributes reaches them as a bare string, which has no \<open>#text\<close>: its
  text is lost. A text that reads as a number reaches them as a number, which has no
  \<open>trim\<close>: the handler raises.
\<close>

lemma bare_choice_text_lost:
  "xmlToMarkdown
     (JObj [(''choice'', JArr [JObj [(''#text'', JStr ''A''), (''correct'', JBool True)], JStr ''B'']),
            (''type'', JStr ''choicegroup'')]) 0
     = Inr (JStr ''\<newline>\<newline>- [(x)] A\<newline>- [( )] \<newline>'') \<and>
   xmlToMarkdown
     (JObj [(''choice'', JArr [JObj [(''#text'', JStr ''A''), (''correct'', JBool True)], JStr ''B'']),
            (''type'', JStr ''checkboxgroup'')]) 0
     = Inr (JStr ''\<newline>\<newline>- [[x]] A\<newline>- [[ ]] \<newline>'')"
  by code_simp

lemma numeric_choice_text_raises:
  "xmlToMarkdown
     (JObj [(''choice'', JArr [JObj [(''#text'', JStr ''A''), (''correct'', JBool True)],
                               JObj [(''#text'', JNum 42), (''correct'', JBool False)]]),
            (''type'', JStr ''choicegroup'')]) 0
     = Inl TypeError \<and>
   xmlToMarkdown
     (JObj [(''choice'', JArr [JObj [(''#text'', JStr ''A''), (''correct'', JBool True)],
                               JObj [(''#text'', JNum 42), (''correct'', JBool False)]]),
            (''type'', JStr ''checkboxgroup'')]) 0
     = Inl TypeError"
  by code_simp

text \<open>
  C1 (as amended). A \<open>choicegroup\<close> with two choices, each reaching the handler as an
  object that holds its text as a string under \<open>#text\<close> (what the parser gives for a
  \<open>choice\<close> element that has an attribute and a text that does not read as a number or a
  boolean); the first marked correct by the boolean \<open>true\<close> or by a string that
  lower-cases to \<open>"true"\<close> (\<open>"true"\<close>, \<open>"TRUE"\<close>), the second marked incorrect by the boolean
  \<open>false\<close>, by an absent attribute or by a string that lower-cases to \<open>"false"\<close>. Every
  such representation normalises to the same boolean, and the block is a blank
  separator followed by one line per choice, \<open>"\n\n- [(x)] A\n- [( )] B\n"\<close>, with \<open>A\<close> and
  \<open>B\<close> the trimmed texts of the choices. The claim as written leaves out the leading
  \<open>"\n\n"\<close>, which the handler sets first on purpose. Nothing is said here of a choice
  that arrives in another shape (the two lemmas above).
\<close>

theorem choicegroup_two_choices:
  assumes "get node ''choice'' = JArr [a, b]"
    and "get a ''#text'' = JStr ta" and "get b ''#text'' = JStr tb"
    and "get a ''correct'' = JBool True \<or> (\<exists>s. get a ''correct'' = JStr s \<and> toLowerCase s = ''true'')"
    and "get b ''correct'' = JBool False \<or> get b ''correct'' = JUndef
           \<or> (\<exists>s. get b ''correct'' = JStr s \<and> toLowerCase s = ''false'')"
  shows "correct_flag (get a ''correct'') \<and> \<not> correct_flag (get b ''correct'') \<and>
         xml_choicegroup node tr depth =
           Inr (JStr (''\<newline>\<newline>- [(x)] '' @ trim ta @ ''\<newline>- [( )] '' @ trim tb @ ''\<newline>''))"
proof -
  have fa: "correct_flag (get a ''correct'')" by (rule correct_flag_true [OF assms(4)])
  have fb: "\<not> correct_flag (get b ''correct'')" by (rule correct_flag_false [OF assms(5)])
  show ?thesis
    using fa fb choice_lines_two [OF assms(1-3)] by (simp add: xml_choicegroup_def)
qed

theorem choicegroup_two_choices_witness:
  "xml_choicegroup
     (JObj [(''choice'', JArr [JObj [(''#text'', JStr ''A''), (''correct'', JStr ''TRUE'')],
                               JObj [(''#text'', JStr ''B''), (''id'', JStr ''b'')]]),
            (''type'', JStr ''choicegroup'')])
     xmlToMarkdown 0
   = Inr (JStr ''\<newline>\<newline>- [(x)] A\<newline>- [( )] B\<newline>'')"
proof -
  let ?a = "JObj [(''#text'', JStr ''A''), (''correct'', JStr ''TRUE'')]"
  let ?b = "JObj [(''#text'', JStr ''B''), (''id'', JStr ''b'')]"
  let ?n = "JObj [(''choice'', JArr [?a, ?b]), (''type'', JStr ''choicegroup'')]"
  have 1: "get ?n ''choice'' = JArr [?a, ?b]" by (simp add: get_def)
  have 2: "get ?a ''#text'' = JStr ''A''" by (simp add: get_def)
  have 3: "get ?b ''#text'' = JStr ''B''" by (simp add: get_def)
  have "toLowerCase ''TRUE'' = ''true''" by code_simp
  then have 4: "get ?a ''correct'' = JBool True \<or> (\<exists>s. get ?a ''correct'' = JStr s \<and> toLowerCase s = ''true'')"
    by (simp add: get_def)
  have 5: "get ?b ''correct'' = JBool False \<or> get ?b ''correct'' = JUndef
           \<or> (\<exists>s. get ?b ''correct'' = JStr s \<and> toLowerCase s = ''false'')"
    by (simp add: get_def)
  have t: "trim ''A'' = ''A''" "trim ''B'' = ''B''" by code_simp+
  show ?thesis
    using choicegroup_two_choices [OF 1 2 3 4 5, of xmlToMarkdown 0] by (simp add: t)
qed

theorem choicegroup_exact_counterexample:
  "xmlToMarkdown
     (JObj [(''choice'', JArr [JObj [(''#text'', JStr ''A''), (''correct'', JBool True)],
                               JObj [(''#text'', JStr ''B''), (''correct'', JBool False)]]),
            (''type'', JStr ''choicegroup'')]) 0
   \<noteq> Inr (JStr ''- [(x)] A\<newline>- [( )] B\<newline>'')"
  by code_simp

text \<open>
  C2 (as amended). For the same two choices, each an object that holds its text as a
  string under \<open>#text\<close>, the first marked correct and the second not, a \<open>checkboxgroup\<close>
  renders \<open>"\n\n- [[x]] A\n- [[ ]] B\n"\<close> and a \<open>choicegroup\<close> renders
  \<open>"\n\n- [(x)] A\n- [( )] B\n"\<close>, with \<open>A\<close> and \<open>B\<close> the trimmed texts: the two blocks differ
  in the marker family only. Both start with a blank separator and neither is followed
  by a blank line; the handlers have no trailing-blank-line asymmetry. Nothing is said
  here of a choice that arrives in another shape.
\<close>

theorem group_blocks_same_layout:
  assumes "get node ''choice'' = JArr [a, b]"
    and "get a ''#text'' = JStr ta" and "get b ''#text'' = JStr tb"
    and "get a ''correct'' = JBool True \<or> (\<exists>s. get a ''correct'' = JStr s \<and> toLowerCase s = ''true'')"
    and "get b ''correct'' = JBool False \<or> get b ''correct'' = JUndef
           \<or> (\<exists>s. get b ''correct'' = JStr s \<and> toLowerCase s = ''false'')"
  shows "xml_checkboxgroup node tr depth =
           Inr (JStr (''\<newline>\<newline>- [[x]] '' @ trim ta @ ''\<newline>- [[ ]] '' @ trim tb @ ''\<newline>'')) \<and>
         xml_choicegroup node tr depth =
           Inr (JStr (''\<newline>\<newline>- [(x)] '' @ trim ta @ ''\<newline>- [( )] '' @ trim tb @ ''\<newline>'')) \<and>
         \<not> ends_with (''\<newline>\<newline>- [[x]] '' @ trim ta @ ''\<newline>- [[ ]] '' @ trim tb @ ''\<newline>'') ''\<newline>\<newline>'' \<and>
         \<not> ends_with (''\<newline>\<newline>- [(x)] '' @ trim ta @ ''\<newline>- [( )] '' @ trim tb @ ''\<newline>'') ''\<newline>\<newline>''"
proof -
  have fa: "correct_flag (get a ''correct'')" by (rule correct_flag_true [OF assms(4)])
  have fb: "\<not> correct_flag (get b ''correct'')" by (rule correct_flag_false [OF assms(5)])
  have cb: "xml_checkboxgroup node tr depth =
           Inr (JStr (''\<newline>\<newline>- [[x]] '' @ trim ta @ ''\<newline>- [[ ]] '' @ trim tb @ ''\<newline>''))"
    using fa fb choice_lines_two [OF assms(1-3)] by (simp add: xml_checkboxgroup_def)
  have cg: "xml_choicegroup node tr depth =
           Inr (JStr (''\<newline>\<newline>- [(x)] '' @ trim ta @ ''\<newline>- [( )] '' @ trim tb @ ''\<newline>''))"
    using fa fb choice_lines_two [OF assms(1-3)] by (simp add: xml_choicegroup_def)
  have e1: "\<not> ends_with (''\<newline>\<newline>- [[x]] '' @ trim ta @ ''\<newline>- [[ ]] '' @ trim tb @ ''\<newline>'') ''\<newline>\<newline>''"
    using no_blank_line_after [of "''\<newline>\<newline>- [[x]] '' @ trim ta @ ''\<newline>- [[ ]]''" tb] by simp
  have e2: "\<not> ends_with (''\<newline>\<newline>- [(x)] '' @ trim ta @ ''\<newline>- [( )] '' @ trim tb @ ''\<newline>'') ''\<newline>\<newline>''"
    using no_blank_line_after [of "''\<newline>\<newline>- [(x)] '' @ trim ta @ ''\<newline>- [( )]''" tb] by simp
  show ?thesis using cb cg e1 e2 by blast
qed

theorem group_blocks_same_layout_witness:
  "xml_checkboxgroup
     (JObj [(''choice'', JArr [JObj [(''#text'', JStr ''A''), (''correct'', JBool True)],
                               JObj [(''#text'', JStr ''B''), (''correct'', JBool False)]])])
     xmlToMarkdown 0
   = Inr (JStr ''\<newline>\<newline>- [[x]] A\<newline>- [[ ]] B\<newline>'') \<and>
   xml_choicegroup
     (JObj [(''choice'', JArr [JObj [(''#text'', JStr ''A''), (''correct'', JBool True)],
                               JObj [(''#text'', JStr ''B''), (''correct'', JBool False)]])])
     xmlToMarkdown 0
   = Inr (JStr ''\<newline>\<newline>- [(x)] A\<newline>- [( )] B\<newline>'')"
proof -
  let ?a = "JObj [(''#text'', JStr ''A''), (''correct'', JBool True)]"
  let ?b = "JObj [(''#text'', JStr ''B''), (''correct'', JBool False)]"
  let ?n = "JObj [(''choice'', JArr [?a, ?b])]"
  have 1: "get ?n ''choice'' = JArr [?a, ?b]" by (simp add: get_def)
  have 2: "get ?a ''#text'' = JStr ''A''" by (simp add: get_def)
  have 3: "get ?b ''#text'' = JStr ''B''" by (simp add: get_def)
  have 4: "get ?a ''correct'' = JBool True \<or> (\<exists>s. get ?a ''correct'' = JStr s \<and> toLowerCase s = ''true'')"
    by (simp add: get_def)
  have 5: "get ?b ''correct'' = JBool False \<or> get ?b ''correct'' = JUndef
           \<or> (\<exists>s. get ?b ''correct'' = JStr s \<and> toLowerCase s = ''false'')"
    by (simp add: get_def)
  have t: "trim ''A'' = ''A''" "trim ''B'' = ''B''" by code_simp+
  show ?thesis
    using group_blocks_same_layout [OF 1 2 3 4 5, of xmlToMarkdown 0] by (simp add: t)
qed

theorem choicegroup_trailing_blank_counterexample:
  "xmlToMarkdown
     (JObj [(''choice'', JArr [JObj [(''#text'', JStr ''A''), (''correct'', JBool True)],
                               JObj [(''#text'', JStr ''B''), (''correct'', JBool False)]]),
            (''type'', JStr ''checkboxgroup'')]) 0
     \<noteq> Inr (JStr ''- [[x]] A\<newline>- [[ ]] B\<newline>'') \<and>
   xmlToMarkdown
     (JObj [(''choice'', JArr [JObj [(''#text'', JStr ''A''), (''correct'', JBool True)],
                               JObj [(''#text'', JStr ''B''), (''correct'', JBool False)]]),
            (''type'', JStr ''choicegroup'')]) 0
     = Inr (JStr ''\<newline>\<newline>- [(x)] A\<newline>- [( )] B\<newline>'') \<and>
   \<not> ends_with ''\<newline>\<newline>- [(x)] A\<newline>- [( )] B\<newline>'' ''\<newline>\<newline>''"
  by code_simp


subsection \<open>Rendering returns on nodes that hold their texts as strings\<close>




















































subsection \<open>Text and numeric answers\<close>



lemma stringresponse_shape:
  assumes "stringresponse_content node tr depth = Inr content" and "truthy (get node ''answer'')"
  shows "xml_stringresponse node tr depth =
           Inr (JStr (trim content @ ''\<newline>\<newline>[['' @ js_toString (get node ''answer'') @ '']]\<newline>''))"
  using assms by (simp add: xml_stringresponse_def answer_text_def)

lemma stringresponse_example:
  "xmlToMarkdown (JObj [(''label'', JStr ''Enter value''), (''answer'', JNum 42),
                        (''type'', JStr ''stringresponse'')]) 0
     = Inr (JStr ''Enter value\<newline>\<newline>[[42]]\<newline>'')"
  by code_simp

lemma stringresponse_ignores_additional_answer:
  assumes "map_of kvs ''additional_answer'' = None" and "map_of kvs ''answer'' = Some a"
  shows "xml_stringresponse (JObj (kvs @ [(''additional_answer'', v)])) tr depth =
         xml_stringresponse (JObj kvs) tr depth"
proof -
  have "stringresponse_content (JObj (kvs @ [(''additional_answer'', v)])) tr depth =
        stringresponse_content (JObj kvs) tr depth"
  proof -
    have c: "\<And>rs. collect (rs @ [Inr []]) = collect rs"
    proof -
      fix rs :: "(error + string) list"
      show "collect (rs @ [Inr []]) = collect rs"
        by (induction rs) (auto split: sum.splits)
    qed
    show ?thesis by (simp add: stringresponse_content_def entries_def c)
  qed
  moreover have "answer_text (JObj (kvs @ [(''additional_answer'', v)])) = answer_text (JObj kvs)"
    using assms by (simp add: answer_text_def get_def map_add_def)
  ultimately show ?thesis by (simp only: xml_stringresponse_def)
qed

text \<open>
  C7. The claim says that every \<open>stringresponse\<close> renders its trimmed prompt content, a
  blank line and \<open>[[answer]]\<close> with the main answer value. The handler takes the answer
  as \<open>node.answer || ""\<close>, so an answer that JavaScript counts as false is printed as
  the empty placeholder: \<open>answer="0"\<close>, which the renderer's parser hands over as the
  number \<open>0\<close>, renders \<open>[[]]\<close> and not \<open>[[0]]\<close>. (For an answer that counts as true the
  shape is as claimed, the key \<open>additional_answer\<close> adds nothing, and the claim's
  example evaluates to \<open>"Enter value\n\n[[42]]\n"\<close>: the three lemmas above.)
\<close>

theorem stringresponse_zero_answer:
  "xmlToMarkdown (JObj [(''label'', JStr ''Enter value''), (''answer'', JNum 0),
                        (''type'', JStr ''stringresponse'')]) 0
     = Inr (JStr ''Enter value\<newline>\<newline>[[]]\<newline>'')"
  by code_simp




subsection \<open>The fallback handler of the quiz renderer\<close>

lemma default_tagName_obj_node: "key \<noteq> [] \<Longrightarrow> default_tagName (obj_node key v) = JStr key"
  by (simp add: default_tagName_def obj_node_def get_def map_of_obj_set)

text \<open>
  What the fallback handler \<open>_\<close> does with an object node. If its \<open>#text\<close> counts as true,
  the handler returns that value as it is. Otherwise it renders the child elements and
  returns the concatenation when its trimmed form is not empty, and the banner
  \<open>> **Unsupported content: <kind> component omitted**\<close> followed by a blank line when it
  is. Whatever it returns is never empty. The name in the banner is
  \<open>tagName || type || "unknown"\<close>, which for a node the parent handlers built from an
  element \<open>key\<close> is \<open>key\<close>.
\<close>

lemma fallback_shape:
  assumes "node = JObj kvs"
  shows "(truthy (get node ''#text'') \<longrightarrow> xml_default node tr depth = Inr (get node ''#text'')) \<and>
         (\<not> truthy (get node ''#text'') \<longrightarrow>
            (\<forall>content. default_content node tr depth = Inr content \<longrightarrow>
               xml_default node tr depth =
                 (if trim content \<noteq> [] then Inr (JStr content)
                  else Inr (JStr (''> **Unsupported content: '' @ js_toString (default_tagName node)
                                  @ '' component omitted**\<newline>\<newline>''))))) \<and>
         (\<forall>r. xml_default node tr depth = Inr r \<longrightarrow> truthy r) \<and>
         (\<forall>key v. key \<noteq> [] \<longrightarrow> default_tagName (obj_node key v) = JStr key)"
proof -
  have 1: "truthy (get node ''#text'') \<longrightarrow> xml_default node tr depth = Inr (get node ''#text'')"
    using assms by (simp add: xml_default_def)
  have 2: "\<not> truthy (get node ''#text'') \<longrightarrow>
            (\<forall>content. default_content node tr depth = Inr content \<longrightarrow>
               xml_default node tr depth =
                 (if trim content \<noteq> [] then Inr (JStr content)
                  else Inr (JStr (''> **Unsupported content: '' @ js_toString (default_tagName node)
                                  @ '' component omitted**\<newline>\<newline>''))))"
    using assms by (simp add: xml_default_def unsupported_banner_def)
  have 3: "\<forall>r. xml_default node tr depth = Inr r \<longrightarrow> truthy r"
  proof (intro allI impI)
    fix r assume r: "xml_default node tr depth = Inr r"
    show "truthy r"
    proof (cases "truthy (get node ''#text'')")
      case True
      with 1 r show ?thesis by simp
    next
      case False
      with r assms obtain content where c: "default_content node tr depth = Inr content"
        by (cases "default_content node tr depth") (auto simp: xml_default_def)
      with 2 False r have "r = (if trim content \<noteq> [] then JStr content
            else JStr (''> **Unsupported content: '' @ js_toString (default_tagName node)
                                  @ '' component omitted**\<newline>\<newline>''))"
        by (auto split: if_splits)
      then show ?thesis by (auto simp: trim_def split: if_splits)
    qed
  qed
  show ?thesis using 1 2 3 default_tagName_obj_node by blast
qed

lemma fallback_examples:
  "xml_default (JObj [(''type'', JStr ''_''), (''#text'', JStr ''plain text'')]) xmlToMarkdown 0
     = Inr (JStr ''plain text'') \<and>
   xml_default (JObj [(''em'', JStr ''stressed''), (''type'', JStr ''span''), (''tagName'', JStr ''span'')]) xmlToMarkdown 0
     = Inr (JStr ''stressed'') \<and>
   xml_default (JObj [(''type'', JStr ''formulaequationinput''), (''tagName'', JStr ''formulaequationinput'')]) xmlToMarkdown 0
     = Inr (JStr ''> **Unsupported content: formulaequationinput component omitted**\<newline>\<newline>'')"
proof -
  let ?n1 = "JObj [(''type'', JStr ''_''), (''#text'', JStr ''plain text'')]"
  let ?n2 = "JObj [(''em'', JStr ''stressed''), (''type'', JStr ''span''), (''tagName'', JStr ''span'')]"
  let ?n3 = "JObj [(''type'', JStr ''formulaequationinput''), (''tagName'', JStr ''formulaequationinput'')]"
  have t1: "truthy (get ?n1 ''#text'')" "get ?n1 ''#text'' = JStr ''plain text''" by (simp_all add: get_def)
  have t2: "\<not> truthy (get ?n2 ''#text'')" "default_content ?n2 xmlToMarkdown 0 = Inr ''stressed''"
    "trim ''stressed'' \<noteq> []" by code_simp+
  have t3: "\<not> truthy (get ?n3 ''#text'')" "default_content ?n3 xmlToMarkdown 0 = Inr []"
    "trim [] = []" "js_toString (default_tagName ?n3) = ''formulaequationinput''" by code_simp+
  show ?thesis
    using fallback_shape [OF refl, of "[(''type'', JStr ''_''), (''#text'', JStr ''plain text'')]" xmlToMarkdown 0]
      fallback_shape [OF refl, of "[(''em'', JStr ''stressed''), (''type'', JStr ''span''), (''tagName'', JStr ''span'')]" xmlToMarkdown 0]
      fallback_shape [OF refl, of "[(''type'', JStr ''formulaequationinput''), (''tagName'', JStr ''formulaequationinput'')]" xmlToMarkdown 0]
      t1 t2 t3
    by simp
qed

text \<open>
  C5. The claim says that a node of unrecognized kind that carries direct text has that
  text emitted as it is. The fallback handler tests the text with
  \<open>if (node && node["#text"]) return node["#text"]\<close>, so a text that JavaScript counts as
  false is taken as no text. The text \<open>0\<close> of \<open><foo id="x">0</foo>\<close>, which the parser
  hands over as the number \<open>0\<close>, is dropped and the element renders as its attribute
  value \<open>x\<close>; the \<open>0\<close> in a repeated text-only element reaches the handler as
  \<open>{ type: "_", "#text": 0 }\<close> and renders as the banner of an unsupported kind \<open>_\<close>. (For
  a text that counts as true, and for a node without text, the handler does what the
  claim says: the two lemmas above.)
\<close>

theorem fallback_zero_text:
  "xmlToMarkdown (JObj [(''foo'', JObj [(''#text'', JNum 0), (''id'', JStr ''x'')]),
                        (''type'', JStr ''problem'')]) 0
     = Inr (JStr ''x'') \<and>
   xmlToMarkdown (JObj [(''#text'', JNum 0), (''id'', JStr ''x''), (''type'', JStr ''foo''),
                        (''tagName'', JStr ''foo'')]) 0
     = Inr (JStr ''x'') \<and>
   xmlToMarkdown (JObj [(''type'', JStr ''_''), (''#text'', JNum 0)]) 0
     = Inr (JStr ''> **Unsupported content: _ component omitted**\<newline>\<newline>'') \<and>
   xmlToMarkdown (JObj [(''label'', JArr [JNum 0, JNum 1]), (''answer'', JStr ''a''),
                        (''type'', JStr ''stringresponse'')]) 0
     = Inr (JStr ''> **Unsupported content: _ component omitted**\<newline>\<newline>1\<newline>\<newline>[[a]]\<newline>'')"
  by code_simp


subsection \<open>The course-tree renderer\<close>

lemma treeToMarkdown_node:
  assumes "get node ''type'' = JStr kind"
  shows "treeToMarkdown_with reader e node depth =
           md_dispatch reader e kind node (treeToMarkdown_with reader e) depth"
proof -
  from assms have "truthy node" by (cases node) (simp_all add: get_def)
  then show ?thesis using assms by (simp add: treeToMarkdown_with.simps)
qed

lemma render_if_present_array:
  "render_if_present tr d (JArr cs) = collect (map (\<lambda>child. tr child d) cs)"
  by (simp add: render_if_present_def render_each_def)

lemma render_if_present_absent: "render_if_present tr d JUndef = Inr []"
  by (simp add: render_if_present_def)

lemma heading_hashes_nonneg:
  "0 \<le> depth \<Longrightarrow> heading_hashes depth = Inr (replicate (min (nat depth + 1) 6) CHR ''#'')"
proof -
  assume d: "0 \<le> depth"
  then have "nat (min (depth + 1) 6) = min (nat depth + 1) 6" by linarith
  with d show ?thesis by (simp add: heading_hashes_def Let_def)
qed

lemma md_dispatch_reader:
  assumes "\<forall>p ty. existsSync e p \<longrightarrow> r1 p ty = r2 p ty"
  shows "md_dispatch r1 e name node tr depth = md_dispatch r2 e name node tr depth"
proof -
  have x: "\<And>ty. fs_exists e (get node ''file'') \<Longrightarrow>
      r1 (js_toString (get node ''file'')) ty = r2 (js_toString (get node ''file'')) ty"
    using assms by (cases "get node ''file''") (simp_all add: fs_exists_def)
  have p: "md_problem r1 e node tr depth = md_problem r2 e node tr depth"
    by (cases "truthy (get node ''file'') \<and> fs_exists e (get node ''file'')")
      (auto simp: md_problem_def Let_def x cong: sum.case_cong)
  have h: "md_htmlContent r1 e node tr depth = md_htmlContent r2 e node tr depth"
    by (simp add: md_htmlContent_def Let_def x)
  show ?thesis by (simp add: md_dispatch_def markdownHandlers_def p h)
qed

lemma treeToMarkdown_reader:
  assumes "\<forall>p ty. existsSync e p \<longrightarrow> r1 p ty = r2 p ty"
  shows "treeToMarkdown_with r1 e node depth = treeToMarkdown_with r2 e node depth"
  using assms
proof (induction r1 e node depth rule: treeToMarkdown_with.induct)
  case (1 reader e node depth)
  show ?case
  proof (cases "truthy node")
    case False
    then show ?thesis by (simp add: treeToMarkdown_with.simps)
  next
    case True
    have "md_agree (md_calls node) (treeToMarkdown_with reader e) (treeToMarkdown_with r2 e)"
      unfolding md_agree_def using 1 True by simp
    then have "md_dispatch reader e (js_toString (get node ''type'')) node (treeToMarkdown_with reader e) depth
        = md_dispatch reader e (js_toString (get node ''type'')) node (treeToMarkdown_with r2 e) depth"
      by (rule md_dispatch_agree)
    also have "\<dots> = md_dispatch r2 e (js_toString (get node ''type'')) node (treeToMarkdown_with r2 e) depth"
      by (rule md_dispatch_reader [OF "1.prems"])
    finally show ?thesis using True by (simp add: treeToMarkdown_with.simps)
  qed
qed

lemma problem_missing_file:
  assumes "get node ''type'' = JStr ''problem''" and "\<not> fs_exists e (get node ''file'')"
  shows "treeToMarkdown e node depth =
           (case render_if_present (treeToMarkdown e) depth (get node ''children'') of
              Inl err \<Rightarrow> Inl err
            | Inr body \<Rightarrow> Inr (body @ ''\<newline>\<newline>---\<newline>\<newline>''))"
  using treeToMarkdown_node [OF assms(1), of "readFileContent e" e depth] assms(2)
  by (simp add: treeToMarkdown_def md_dispatch_def markdownHandlers_def md_problem_def Let_def
      cong: sum.case_cong)

text \<open>
  C3 (as amended). A node of kind \<open>vertical\<close> or \<open>html\<close> renders to exactly the
  concatenation of its children's renderings at the node's own depth: no heading of its
  own, and each child's \<open>transform\<close> gets the same depth. A \<open>vertical-container\<close> has no
  handler in \<open>markdownHandlers\<close>; the fallback \<open>_\<close> renders it, also with no heading of
  its own, and passes \<open>depth + 1\<close> to each child. A node without \<open>children\<close> renders to
  the empty string.
\<close>

theorem transparent_containers:
  assumes "get node ''type'' = JStr kind"
  shows "(kind = ''vertical'' \<or> kind = ''html'' \<longrightarrow>
            treeToMarkdown e node depth =
              render_if_present (treeToMarkdown e) depth (get node ''children'')) \<and>
         (kind = ''vertical-container'' \<longrightarrow>
            treeToMarkdown e node depth =
              render_if_present (treeToMarkdown e) (depth + 1) (get node ''children'')) \<and>
         (\<forall>tr d cs. render_if_present tr d (JArr cs) = collect (map (\<lambda>child. tr child d) cs)) \<and>
         (\<forall>tr d. render_if_present tr d JUndef = Inr [])"
  using treeToMarkdown_node [OF assms, of "readFileContent e" e depth]
  by (auto simp: treeToMarkdown_def md_dispatch_def markdownHandlers_def md_vertical_def md_html_def
      md_default_def inherited_def render_if_present_array render_if_present_absent)

theorem transparent_containers_witness:
  "treeToMarkdown demo_env
     (JObj [(''type'', JStr ''vertical''),
            (''children'', JArr [JObj [(''type'', JStr ''chapter''), (''display_name'', JStr ''Y''),
                                       (''children'', JArr [])]])]) 0
     = Inr ''# Y\<newline>\<newline>'' \<and>
   treeToMarkdown demo_env
     (JObj [(''type'', JStr ''vertical-container''),
            (''children'', JArr [JObj [(''type'', JStr ''chapter''), (''display_name'', JStr ''Y''),
                                       (''children'', JArr [])]])]) 0
     = Inr ''## Y\<newline>\<newline>''"
proof -
  let ?c = "JObj [(''type'', JStr ''chapter''), (''display_name'', JStr ''Y''), (''children'', JArr [])]"
  let ?v = "JObj [(''type'', JStr ''vertical''), (''children'', JArr [?c])]"
  let ?w = "JObj [(''type'', JStr ''vertical-container''), (''children'', JArr [?c])]"
  have t: "get ?v ''type'' = JStr ''vertical''" "get ?w ''type'' = JStr ''vertical-container''"
    "get ?v ''children'' = JArr [?c]" "get ?w ''children'' = JArr [?c]"
    by (simp_all add: get_def)
  have c: "treeToMarkdown demo_env ?c 0 = Inr ''# Y\<newline>\<newline>''"
    "treeToMarkdown demo_env ?c 1 = Inr ''## Y\<newline>\<newline>''" by code_simp+
  show ?thesis
    using transparent_containers [OF t(1), of demo_env 0] transparent_containers [OF t(2), of demo_env 0]
    by (simp add: t c)
qed

theorem vertical_container_depth_counterexample:
  "treeToMarkdown demo_env
     (JObj [(''type'', JStr ''vertical-container''),
            (''children'', JArr [JObj [(''type'', JStr ''chapter''), (''display_name'', JStr ''Y''),
                                       (''children'', JArr [])]])]) 0
     = Inr ''## Y\<newline>\<newline>'' \<and>
   collect (map (\<lambda>child. treeToMarkdown demo_env child 0)
     [JObj [(''type'', JStr ''chapter''), (''display_name'', JStr ''Y''), (''children'', JArr [])]])
     = Inr ''# Y\<newline>\<newline>''"
  by code_simp


text \<open>
  The headings of the four heading-bearing kinds. Rendered at a depth \<open>d \<ge> 0\<close>, a
  \<open>course\<close>, \<open>chapter\<close> or \<open>sequential\<close> node emits exactly \<open>min(d+1, 6)\<close> characters \<open>#\<close>, a
  space, the display name when it counts as true and otherwise \<open>path.basename\<close> of the
  node's file, and a blank line; an \<open>about\<close> node emits the same heading with
  \<open>String(node.display_name)\<close>. After the heading come the children, where present,
  rendered at depth \<open>d+1\<close> (for a \<open>sequential\<close>: its \<open>verticals\<close>, its \<open>problems\<close> and its
  \<open>children\<close>).
\<close>

lemma heading_levels:
  assumes "0 \<le> depth" and "get node ''type'' = JStr kind"
  shows "(kind = ''about'' \<longrightarrow>
            treeToMarkdown e node depth =
              (case render_if_present (treeToMarkdown e) (depth + 1) (get node ''children'') of
                 Inl err \<Rightarrow> Inl err
               | Inr body \<Rightarrow>
                   Inr (replicate (min (nat depth + 1) 6) CHR ''#'' @ '' ''
                        @ js_toString (get node ''display_name'') @ ''\<newline>\<newline>'' @ body))) \<and>
         (\<forall>f. (kind = ''course'' \<or> kind = ''chapter'') \<and>
              (truthy (get node ''display_name'') \<or> get node ''file'' = JStr f) \<longrightarrow>
            treeToMarkdown e node depth =
              (case render_if_present (treeToMarkdown e) (depth + 1) (get node ''children'') of
                 Inl err \<Rightarrow> Inl err
               | Inr body \<Rightarrow>
                   Inr (replicate (min (nat depth + 1) 6) CHR ''#'' @ '' ''
                        @ (if truthy (get node ''display_name'') then js_toString (get node ''display_name'')
                           else path_basename e f)
                        @ ''\<newline>\<newline>'' @ body))) \<and>
         (\<forall>f. kind = ''sequential'' \<and>
              (truthy (get node ''display_name'') \<or> get node ''file'' = JStr f) \<longrightarrow>
            treeToMarkdown e node depth =
              (case collect [render_if_present (treeToMarkdown e) (depth + 1) (get node ''verticals''),
                             render_if_present (treeToMarkdown e) (depth + 1) (get node ''problems''),
                             render_if_present (treeToMarkdown e) (depth + 1) (get node ''children'')] of
                 Inl err \<Rightarrow> Inl err
               | Inr body \<Rightarrow>
                   Inr (replicate (min (nat depth + 1) 6) CHR ''#'' @ '' ''
                        @ (if truthy (get node ''display_name'') then js_toString (get node ''display_name'')
                           else path_basename e f)
                        @ ''\<newline>\<newline>'' @ body)))"
proof -
  define hs where "hs = replicate (min (nat depth + 1) 6) CHR ''#''"
  have hh: "heading_hashes depth = Inr hs"
    unfolding hs_def by (rule heading_hashes_nonneg [OF assms(1)])
  note u = treeToMarkdown_node [OF assms(2), of "readFileContent e" e depth]
  have n: "\<And>f. truthy (get node ''display_name'') \<or> get node ''file'' = JStr f \<Longrightarrow>
      name_or_basename e node =
        Inr (if truthy (get node ''display_name'') then js_toString (get node ''display_name'')
             else path_basename e f)"
    by (auto simp: name_or_basename_def)
  have a: "kind = ''about'' \<Longrightarrow> treeToMarkdown e node depth = md_about node (treeToMarkdown e) depth"
    using u by (simp add: treeToMarkdown_def md_dispatch_def markdownHandlers_def)
  have c: "kind = ''course'' \<Longrightarrow> treeToMarkdown e node depth = md_course e node (treeToMarkdown e) depth"
    using u by (simp add: treeToMarkdown_def md_dispatch_def markdownHandlers_def)
  have h: "kind = ''chapter'' \<Longrightarrow> treeToMarkdown e node depth = md_chapter e node (treeToMarkdown e) depth"
    using u by (simp add: treeToMarkdown_def md_dispatch_def markdownHandlers_def)
  have s: "kind = ''sequential'' \<Longrightarrow> treeToMarkdown e node depth = md_sequential e node (treeToMarkdown e) depth"
    using u by (simp add: treeToMarkdown_def md_dispatch_def markdownHandlers_def)
  show ?thesis
    unfolding hs_def [symmetric]
    using a c h s
    by (auto simp: md_about_def md_course_def md_chapter_def md_sequential_def hh n)
qed

lemma heading_examples:
  "treeToMarkdown demo_env
     (JObj [(''type'', JStr ''chapter''), (''display_name'', JNull),
            (''file'', JStr ''/c/chapter/ch1.xml''), (''children'', JArr [])]) 9
     = Inr ''###### ch1.xml\<newline>\<newline>'' \<and>
   treeToMarkdown demo_env
     (JObj [(''type'', JStr ''about''), (''display_name'', JStr ''About''), (''children'', JArr [])]) 0
     = Inr ''# About\<newline>\<newline>'' \<and>
   treeToMarkdown demo_env
     (JObj [(''type'', JStr ''sequential''), (''display_name'', JStr ''Z'')]) 2
     = Inr ''### Z\<newline>\<newline>''"
  by code_simp

text \<open>
  C8. The claim says that each of the four heading-bearing kinds prints the node's
  display name and falls back to the base name of its file. The handlers of \<open>course\<close>,
  \<open>chapter\<close> and \<open>sequential\<close> print \<open>node.display_name || path.basename(node.file)\<close>; the
  handler of \<open>about\<close> prints \<open>node.display_name\<close> alone. An \<open>about\<close> node without a display
  name gets the heading \<open># undefined\<close>, not the base name \<open>overview.xml\<close> of its file. (The
  number of hashes and the depth of the children are as claimed in all four kinds: the
  lemma above.)
\<close>

theorem about_heading_undefined:
  "treeToMarkdown demo_env
     (JObj [(''type'', JStr ''about''), (''file'', JStr ''/c/about/overview.xml''),
            (''children'', JArr [])]) 0
     = Inr ''# undefined\<newline>\<newline>'' \<and>
   path_basename demo_env ''/c/about/overview.xml'' = ''overview.xml'' \<and>
   treeToMarkdown demo_env
     (JObj [(''type'', JStr ''chapter''), (''file'', JStr ''/c/about/overview.xml''),
            (''children'', JArr [])]) 0
     = Inr ''# overview.xml\<newline>\<newline>''"
  by code_simp

text \<open>
  C9. The renderer never depends on what \<open>readFileContent\<close> returns for a path that
  does not exist: put any other function in its place that agrees with it on the
  existing paths, and \<open>treeToMarkdown\<close> renders every node to the same result. So the
  branch that answers \<open>> **File not found: ...**\<close> is not reached from the renderer, and
  a \<open>problem\<close> node whose file is missing renders to its children followed by the
  separator \<open>"\n\n---\n\n"\<close>.
\<close>

theorem file_not_found_unreachable:
  assumes "\<forall>p ty. existsSync e p \<longrightarrow> other p ty = readFileContent e p ty"
  shows "treeToMarkdown_with other e node depth = treeToMarkdown e node depth \<and>
         (get node ''type'' = JStr ''problem'' \<and> \<not> fs_exists e (get node ''file'') \<longrightarrow>
            treeToMarkdown e node depth =
              (case render_if_present (treeToMarkdown e) depth (get node ''children'') of
                 Inl err \<Rightarrow> Inl err
               | Inr body \<Rightarrow> Inr (body @ ''\<newline>\<newline>---\<newline>\<newline>'')))"
  using treeToMarkdown_reader [OF assms] problem_missing_file
  by (simp add: treeToMarkdown_def)

theorem file_not_found_unreachable_witness:
  "treeToMarkdown_with (\<lambda>p ty. if existsSync demo_env p then readFileContent demo_env p ty else JStr ''unused'')
     demo_env
     (JObj [(''type'', JStr ''problem''), (''file'', JStr ''/c/problem/gone.xml''), (''children'', JArr [])]) 0
     = Inr ''\<newline>\<newline>---\<newline>\<newline>''"
proof -
  let ?other = "\<lambda>p ty. if existsSync demo_env p then readFileContent demo_env p ty else JStr ''unused''"
  let ?n = "JObj [(''type'', JStr ''problem''), (''file'', JStr ''/c/problem/gone.xml''), (''children'', JArr [])]"
  have o: "\<forall>p ty. existsSync demo_env p \<longrightarrow> ?other p ty = readFileContent demo_env p ty" by simp
  have g: "get ?n ''type'' = JStr ''problem''" "get ?n ''children'' = JArr []"
    "get ?n ''file'' = JStr ''/c/problem/gone.xml''" by (simp_all add: get_def)
  have m: "\<not> fs_exists demo_env (JStr ''/c/problem/gone.xml'')" by code_simp
  show ?thesis
    using file_not_found_unreachable [OF o, of ?n 0] g m
    by (simp add: render_if_present_array)
qed


subsection \<open>The course tree builder\<close>

lemma and_then_Inr [simp]: "and_then (Some (Inr x)) f = f x"
  by (simp add: and_then_def)

lemma and_then_SomeD:
  "and_then r f = Some (Inr y) \<Longrightarrow> \<exists>x. r = Some (Inr x) \<and> f x = Some (Inr y)"
  by (auto simp: and_then_def split: option.splits sum.splits)

lemma build_each_results:
  "map f xs = map (\<lambda>r. Some (Inr r)) rs \<Longrightarrow> build_each f xs = Some (Inr (filter truthy rs))"
proof (induction xs arbitrary: rs)
  case Nil
  then show ?case by simp
next
  case (Cons x xs)
  then obtain r rs' where rs: "rs = r # rs'" "f x = Some (Inr r)" "map f xs = map (\<lambda>r. Some (Inr r)) rs'"
    by (cases rs) auto
  then show ?case using Cons.IH [OF rs(3)] by simp
qed

lemma build_each_truthy:
  "build_each f xs = Some (Inr vs) \<Longrightarrow> \<forall>v \<in> set vs. truthy v"
proof (induction xs arbitrary: vs)
  case Nil
  then show ?case by simp
next
  case (Cons x xs)
  from Cons.prems obtain v where v: "f x = Some (Inr v)"
    and "and_then (build_each f xs) (\<lambda>ws. Some (Inr (if truthy v then v # ws else ws))) = Some (Inr vs)"
    by (auto dest: and_then_SomeD)
  then obtain ws where ws: "build_each f xs = Some (Inr ws)" "vs = (if truthy v then v # ws else ws)"
    by (auto dest: and_then_SomeD)
  then show ?case using Cons.IH [OF ws(1)] by auto
qed

lemma build_each_skip:
  assumes "f x = Some (Inr JNull)"
  shows "build_each f (xs @ x # ys) = build_each f (xs @ ys)"
proof (induction xs)
  case Nil
  have "and_then (build_each f ys) (\<lambda>vs. Some (Inr vs)) = build_each f ys"
    by (auto simp: and_then_def split: option.splits sum.splits)
  then show ?case using assms by simp
next
  case (Cons a xs)
  then show ?case by simp
qed

lemma buildTree_null:
  assumes "\<not> existsSync e filePath \<or> \<not> ends_with filePath ''.xml'' \<or> \<not> truthy (parseXmlFile e filePath)"
  shows "buildTree (Suc n) e filePath ty = Some (Inr JNull)"
  using assms by (auto simp: buildTree.simps Let_def)

lemma buildTree_children_truthy:
  assumes "buildTree n e filePath ty = Some (Inr node)" and "get node ''children'' = JArr cs"
  shows "\<forall>c \<in> set cs. truthy c"
proof (cases n)
  case 0
  with assms show ?thesis by (simp add: buildTree.simps)
next
  case (Suc m)
  let ?obj = "parseXmlFile e filePath"
  let ?dir = "path_dirname e filePath"
  let ?parent = "path_dirname e ?dir"
  from assms(2) have nn: "node \<noteq> JNull" by auto
  consider (in_about) "node = about_node e ?obj ?dir filePath"
    | (in_course) chapters where
        "build_each (build_child (buildTree m e) e ?parent ''chapter'') (as_list (get (get ?obj ''course'') ''chapter'')) = Some (Inr chapters)"
        "cs = course_about e ?dir @ chapters"
    | (in_chapter) sequentials where
        "build_each (build_child (buildTree m e) e ?parent ''sequential'') (as_list (get (get ?obj ''chapter'') ''sequential'')) = Some (Inr sequentials)"
        "cs = sequentials"
    | (in_sequential) containers where
        "build_each (build_container (buildTree m e) e ?parent) (as_list (get (get ?obj ''sequential'') ''vertical'')) = Some (Inr containers)"
        "cs = containers"
    | (in_vertical) problems htmls videos where
        "build_each (build_leaf (buildTree m e) e ?parent ''problem'') (as_list (get (get ?obj ''vertical'') ''problem'')) = Some (Inr problems)"
        "build_each (build_leaf (buildTree m e) e ?parent ''html'') (as_list (get (get ?obj ''vertical'') ''html'')) = Some (Inr htmls)"
        "build_each (build_leaf (buildTree m e) e ?parent ''video'') (as_list (get (get ?obj ''vertical'') ''video'')) = Some (Inr videos)"
        "cs = problems @ htmls @ videos"
    | (in_problem) "node = problem_node ?obj filePath"
    | (in_html) "node = html_node e ?obj ?dir filePath"
    | (in_video) "node = video_node ?obj filePath"
    using assms nn unfolding Suc
    by (auto simp: buildTree.simps Let_def get_def split: if_splits dest!: and_then_SomeD)
  then show ?thesis
  proof cases
    case in_about
    with assms(2) show ?thesis by (auto simp: about_node_def Let_def overview_child_def get_def split: if_splits)
  next
    case in_course
    then show ?thesis using build_each_truthy [OF in_course(1)] by (auto simp: course_about_def Let_def)
  next
    case in_chapter
    then show ?thesis using build_each_truthy [OF in_chapter(1)] by simp
  next
    case in_sequential
    then show ?thesis using build_each_truthy [OF in_sequential(1)] by simp
  next
    case in_vertical
    then show ?thesis
      using build_each_truthy [OF in_vertical(1)] build_each_truthy [OF in_vertical(2)]
        build_each_truthy [OF in_vertical(3)] by auto
  next
    case in_problem
    with assms(2) show ?thesis by (auto simp: problem_node_def get_def)
  next
    case in_html
    with assms(2) show ?thesis by (auto simp: html_node_def Let_def get_def split: if_splits)
  next
    case in_video
    with assms(2) show ?thesis by (auto simp: video_node_def get_def)
  qed
qed


lemma missing_reference:
  assumes "ref_path e parentDir kind r = Some (Inr childPath)"
    and "\<not> existsSync e childPath \<or> \<not> ends_with childPath ''.xml'' \<or> \<not> truthy (parseXmlFile e childPath)"
  shows "build_child (buildTree (Suc n) e) e parentDir kind r = Some (Inr JNull)"
    and "build_leaf (buildTree (Suc n) e) e parentDir kind r = Some (Inr JNull)"
    and "kind = ''vertical'' \<Longrightarrow> build_container (buildTree (Suc n) e) e parentDir r = Some (Inr JNull)"
  using assms(1) buildTree_null [OF assms(2), of n]
  by (simp_all add: build_child_def build_leaf_def build_container_def vertical_container_def)

text \<open>
  C6. Given a bound of at least one call, \<open>buildTree(filePath, kind)\<close> returns \<open>null\<close> and
  raises nothing when the file does not exist, when its name does not end in \<open>.xml\<close>, or
  when reading or parsing it fails. A reference to such a file builds to \<open>null\<close> at
  every call site (chapter and sequential references, vertical references, and the
  problem, html and video references of a vertical); \<open>.map(...).filter(Boolean)\<close> drops a
  \<open>null\<close> from the list it assembles, leaving the other entries as they are; and the
  \<open>children\<close> of a node that \<open>buildTree\<close> returns hold no \<open>null\<close>.
\<close>

theorem buildTree_soft_failure:
  "(\<not> existsSync e filePath \<or> \<not> ends_with filePath ''.xml'' \<or> \<not> truthy (parseXmlFile e filePath) \<longrightarrow>
      buildTree (Suc n) e filePath ty = Some (Inr JNull)) \<and>
   (\<forall>parentDir kind r childPath.
      ref_path e parentDir kind r = Some (Inr childPath) \<and>
      (\<not> existsSync e childPath \<or> \<not> ends_with childPath ''.xml'' \<or> \<not> truthy (parseXmlFile e childPath)) \<longrightarrow>
        build_child (buildTree (Suc n) e) e parentDir kind r = Some (Inr JNull) \<and>
        build_leaf (buildTree (Suc n) e) e parentDir kind r = Some (Inr JNull) \<and>
        (kind = ''vertical'' \<longrightarrow> build_container (buildTree (Suc n) e) e parentDir r = Some (Inr JNull))) \<and>
   (\<forall>f x xs ys. f x = Some (Inr JNull) \<longrightarrow> build_each f (xs @ x # ys) = build_each f (xs @ ys)) \<and>
   (\<forall>node cs. buildTree n e filePath ty = Some (Inr node) \<and> get node ''children'' = JArr cs \<longrightarrow>
      (\<forall>c \<in> set cs. truthy c))"
  using buildTree_null [of e filePath n ty] missing_reference [of e _ _ _ _ n]
    build_each_skip buildTree_children_truthy [of n e filePath ty]
  by blast

theorem buildTree_soft_failure_witness:
  "buildTree 1 demo_env ''/c/chapter/gone.xml'' ''chapter'' = Some (Inr JNull) \<and>
   buildTree 1 demo_env ''/c/html/h1.html'' ''html'' = Some (Inr JNull) \<and>
   buildTree 1 demo_env ''/c/chapter/bad.xml'' ''chapter'' = Some (Inr JNull) \<and>
   build_child (buildTree 1 demo_env) demo_env ''/c'' ''chapter'' (ref ''gone'') = Some (Inr JNull)"
proof -
  have a: "\<not> existsSync demo_env ''/c/chapter/gone.xml''" by code_simp
  have b: "\<not> ends_with ''/c/html/h1.html'' ''.xml''" by code_simp
  have c: "\<not> truthy (parseXmlFile demo_env ''/c/chapter/bad.xml'')" by code_simp
  have d: "ref_path demo_env ''/c'' ''chapter'' (ref ''gone'') = Some (Inr ''/c/chapter/gone.xml'')" by code_simp
  show ?thesis
    using buildTree_soft_failure [of demo_env "''/c/chapter/gone.xml''" 0 "''chapter''"]
      buildTree_soft_failure [of demo_env "''/c/html/h1.html''" 0 "''html''"]
      buildTree_soft_failure [of demo_env "''/c/chapter/bad.xml''" 0 "''chapter''"]
      a b c d
    by simp
qed

text \<open>
  C4 (as amended). The children of a built node are the nodes its references build to,
  \<open>null\<close> results dropped, in the order of the references within each kind, never sorted:
  a course holds its \<open>about\<close> node first (when \<open>about/overview.html\<close> exists) and then
  its chapters; a chapter its sequentials; a sequential its vertical containers; and a
  vertical holds all its problems, then all its htmls, then all its videos. References
  of different kinds that interleave in the XML of a vertical do not interleave in its
  children.
\<close>

theorem children_grouped_by_kind:
  assumes "existsSync e filePath" and "ends_with filePath ''.xml''"
    and "parseXmlFile e filePath = obj" and "truthy obj"
    and "ty \<noteq> ''about'' \<or> \<not> truthy (get obj ''about'')"
    and "path_dirname e filePath = dir" and "path_dirname e dir = parentDir"
  shows "(truthy (get obj ''course'') \<and>
          map (build_child (buildTree n e) e parentDir ''chapter'') (as_list (get (get obj ''course'') ''chapter''))
            = map (\<lambda>r. Some (Inr r)) chapters \<longrightarrow>
            (\<exists>node. buildTree (Suc n) e filePath ty = Some (Inr node) \<and>
               get node ''children'' = JArr (course_about e dir @ filter truthy chapters))) \<and>
         (\<not> truthy (get obj ''course'') \<and> truthy (get obj ''chapter'') \<and>
          map (build_child (buildTree n e) e parentDir ''sequential'') (as_list (get (get obj ''chapter'') ''sequential''))
            = map (\<lambda>r. Some (Inr r)) sequentials \<longrightarrow>
            (\<exists>node. buildTree (Suc n) e filePath ty = Some (Inr node) \<and>
               get node ''children'' = JArr (filter truthy sequentials))) \<and>
         (\<not> truthy (get obj ''course'') \<and> \<not> truthy (get obj ''chapter'') \<and> truthy (get obj ''sequential'') \<and>
          map (build_container (buildTree n e) e parentDir) (as_list (get (get obj ''sequential'') ''vertical''))
            = map (\<lambda>r. Some (Inr r)) containers \<longrightarrow>
            (\<exists>node. buildTree (Suc n) e filePath ty = Some (Inr node) \<and>
               get node ''children'' = JArr (filter truthy containers))) \<and>
         (\<not> truthy (get obj ''course'') \<and> \<not> truthy (get obj ''chapter'') \<and> \<not> truthy (get obj ''sequential'') \<and>
          truthy (get obj ''vertical'') \<and>
          map (build_leaf (buildTree n e) e parentDir ''problem'') (as_list (get (get obj ''vertical'') ''problem''))
            = map (\<lambda>r. Some (Inr r)) problems \<and>
          map (build_leaf (buildTree n e) e parentDir ''html'') (as_list (get (get obj ''vertical'') ''html''))
            = map (\<lambda>r. Some (Inr r)) htmls \<and>
          map (build_leaf (buildTree n e) e parentDir ''video'') (as_list (get (get obj ''vertical'') ''video''))
            = map (\<lambda>r. Some (Inr r)) videos \<longrightarrow>
            (\<exists>node. buildTree (Suc n) e filePath ty = Some (Inr node) \<and>
               get node ''children'' =
                 JArr (filter truthy problems @ filter truthy htmls @ filter truthy videos)))"
  using assms
  by (auto simp: buildTree.simps Let_def get_def dest!: build_each_results)


theorem children_grouped_by_kind_witness:
  "\<exists>node. buildTree 2 demo_env ''/c/vertical/v1.xml'' ''vertical'' = Some (Inr node) \<and>
      get node ''children'' =
        JArr [problem_node (parseXmlFile demo_env ''/c/problem/p1.xml'') ''/c/problem/p1.xml'',
              problem_node (parseXmlFile demo_env ''/c/problem/p2.xml'') ''/c/problem/p2.xml'',
              html_node demo_env (parseXmlFile demo_env ''/c/html/h1.xml'') ''/c/html'' ''/c/html/h1.xml'',
              video_node (parseXmlFile demo_env ''/c/video/w1.xml'') ''/c/video/w1.xml'']"
proof -
  let ?obj = "parseXmlFile demo_env ''/c/vertical/v1.xml''"
  let ?p1 = "problem_node (parseXmlFile demo_env ''/c/problem/p1.xml'') ''/c/problem/p1.xml''"
  let ?p2 = "problem_node (parseXmlFile demo_env ''/c/problem/p2.xml'') ''/c/problem/p2.xml''"
  let ?h1 = "html_node demo_env (parseXmlFile demo_env ''/c/html/h1.xml'') ''/c/html'' ''/c/html/h1.xml''"
  let ?w1 = "video_node (parseXmlFile demo_env ''/c/video/w1.xml'') ''/c/video/w1.xml''"
  have f: "existsSync demo_env ''/c/vertical/v1.xml''" "ends_with ''/c/vertical/v1.xml'' ''.xml''"
    "truthy ?obj" "''vertical'' \<noteq> ''about'' \<or> \<not> truthy (get ?obj ''about'')"
    "path_dirname demo_env ''/c/vertical/v1.xml'' = ''/c/vertical''"
    "path_dirname demo_env ''/c/vertical'' = ''/c''"
    by code_simp+
  have b: "\<not> truthy (get ?obj ''course'')" "\<not> truthy (get ?obj ''chapter'')"
    "\<not> truthy (get ?obj ''sequential'')" "truthy (get ?obj ''vertical'')"
    by code_simp+
  have p: "map (build_leaf (buildTree 1 demo_env) demo_env ''/c'' ''problem'')
             (as_list (get (get ?obj ''vertical'') ''problem'')) = map (\<lambda>r. Some (Inr r)) [?p1, ?p2]"
    by code_simp
  have h: "map (build_leaf (buildTree 1 demo_env) demo_env ''/c'' ''html'')
             (as_list (get (get ?obj ''vertical'') ''html'')) = map (\<lambda>r. Some (Inr r)) [?h1]"
    by code_simp
  have w: "map (build_leaf (buildTree 1 demo_env) demo_env ''/c'' ''video'')
             (as_list (get (get ?obj ''vertical'') ''video'')) = map (\<lambda>r. Some (Inr r)) [?w1]"
    by code_simp
  have t: "truthy ?p1" "truthy ?p2" "truthy ?h1" "truthy ?w1"
    by (simp_all add: problem_node_def html_node_def video_node_def Let_def)
  have two: "(2::nat) = Suc 1" by simp
  show ?thesis
    unfolding two
    using children_grouped_by_kind [OF f(1) f(2) refl f(3) f(4) f(5) f(6),
        of 1 _ _ _ "[?p1, ?p2]" "[?h1]" "[?w1]"] b p h w t
    by simp
qed

theorem interleaved_order_counterexample:
  "readFileSync demo_env ''/c/vertical/v1.xml'' =
     Some ''<vertical><html url_name=h1/><problem url_name=p1/><video url_name=w1/><problem url_name=p2/></vertical>'' \<and>
   (case buildTree 2 demo_env ''/c/vertical/v1.xml'' ''vertical'' of
      Some (Inr node) \<Rightarrow> map (\<lambda>child. get child ''file'') (array_items (get node ''children''))
    | _ \<Rightarrow> [])
     = [JStr ''/c/problem/p1.xml'', JStr ''/c/problem/p2.xml'', JStr ''/c/html/h1.xml'', JStr ''/c/video/w1.xml''] \<and>
   (case buildTree 2 demo_env ''/c/vertical/v1.xml'' ''vertical'' of
      Some (Inr node) \<Rightarrow> map (\<lambda>child. get child ''file'') (array_items (get node ''children''))
    | _ \<Rightarrow> [])
     \<noteq> [JStr ''/c/html/h1.xml'', JStr ''/c/problem/p1.xml'', JStr ''/c/video/w1.xml'', JStr ''/c/problem/p2.xml'']"
  by code_simp


end
